theory Spec2Isabelle
  imports Complex_Main
begin

section \<open>The chain model of the node-graph effect editor\<close>

text \<open>
  The editor keeps its model in module-level variables: \<^verbatim>\<open>effectChain\<close> (an array of
  node objects), \<^verbatim>\<open>nodeIdCounter\<close> and the toast shown by \<^verbatim>\<open>showToast\<close>. The
  functions below are the model-side behaviour of \<^verbatim>\<open>makeNodeId\<close>,
  \<^verbatim>\<open>getDefaultPosition\<close>, \<^verbatim>\<open>ensurePositions\<close>, \<^verbatim>\<open>normalizeChainData\<close>,
  \<^verbatim>\<open>getMaxInputs\<close>, \<^verbatim>\<open>getEntryById\<close>, \<^verbatim>\<open>connectNodes\<close>,
  \<^verbatim>\<open>removeEffectById\<close>, \<^verbatim>\<open>addEffect\<close> and of the effect-select \<^verbatim>\<open>change\<close>
  handlers, and, for the viewport, \<^verbatim>\<open>clampScale\<close>, \<^verbatim>\<open>clientToWorld\<close> and the
  \<^verbatim>\<open>wheel\<close> listener of \<^verbatim>\<open>setupZoom\<close>. The DOM is not modelled; what the renderers
  write back to the model (\<^verbatim>\<open>ensurePositions\<close>) is.
\<close>

subsection \<open>Data\<close>

text \<open>
  One element of a node's \<^verbatim>\<open>inputs\<close> array: a node id, \<^verbatim>\<open>null\<close>, or an array hole
  (the slots that \<^verbatim>\<open>inputs[portIndex] = fromId\<close> leaves empty when it writes past the
  end; \<^verbatim>\<open>filter\<close> skips them, \<^verbatim>\<open>slice\<close> keeps them).
\<close>

datatype slot = Hole | Null | Ref string

datatype position = Position (pos_x: real) (pos_y: real)

datatype jsvalue = JBool bool | JNum real | JStr string

text \<open>
  A node object. Every field but \<^verbatim>\<open>name\<close> may be absent on an object of
  \<^verbatim>\<open>effectChain\<close> (the settings loader unshifts \<^verbatim>\<open>{ name: 'source', options: {} }\<close>) and
  on a loaded entry; \<open>None\<close> is the absent (\<^verbatim>\<open>undefined\<close>) field. The same shape is the
  wire format of a preset and of \<^verbatim>\<open>effect_chain\<close>.
\<close>

record entry =
  entry_id :: "string option"
  name :: "string option"
  options :: "(string \<times> jsvalue) list option"
  inputs :: "slot list option"
  position :: "position option"

datatype toast = Toast string bool

record editor =
  effectChain :: "entry list"
  nodeIdCounter :: nat
  toasts :: "toast list"

text \<open>
  What the functions read from outside the model: \<open>now c\<close> is the reading of
  \<^verbatim>\<open>Date.now()\<close> in the call of \<^verbatim>\<open>makeNodeId\<close> that brings the counter to \<open>c\<close>;
  \<open>hasContainer\<close> says that \<^verbatim>\<open>effectChainContainer\<close> exists, \<open>listActive\<close> that
  \<^verbatim>\<open>chainListView\<close> exists and has the class \<^verbatim>\<open>active\<close>; \<open>viewportCenter\<close> is the
  result of \<^verbatim>\<open>clientToWorld\<close> at the centre of the stage, \<open>None\<close> when there is no
  \<^verbatim>\<open>nodeStage\<close>; \<open>availableEffects\<close> holds the names of the effect catalogue.
\<close>

record env =
  now :: "nat \<Rightarrow> nat"
  hasContainer :: bool
  listActive :: bool
  viewportCenter :: "position option"
  availableEffects :: "string list"

subsection \<open>Truthiness and strict equality on ids\<close>

definition truthy :: "string option \<Rightarrow> bool" where
  "truthy v = (case v of None \<Rightarrow> False | Some s \<Rightarrow> s \<noteq> [])"

text \<open>\<^verbatim>\<open>slot === nodeId\<close> for an element of \<^verbatim>\<open>inputs\<close> and an id argument.\<close>

fun slot_is :: "slot \<Rightarrow> string option \<Rightarrow> bool" where
  "slot_is (Ref a) (Some b) = (a = b)"
| "slot_is _ _ = False"

text \<open>\<^verbatim>\<open>e.inputs || []\<close>, and \<^verbatim>\<open>Array.isArray(e.inputs) ? e.inputs.slice() : []\<close>.\<close>

definition inputs_of :: "entry \<Rightarrow> slot list" where
  "inputs_of e = (case inputs e of None \<Rightarrow> [] | Some xs \<Rightarrow> xs)"

subsection \<open>Node ids and default positions\<close>

fun dec :: "nat \<Rightarrow> string" where
  "dec n = (if n < 10 then [char_of (48 + n)] else dec (n div 10) @ [char_of (48 + n mod 10)])"

declare dec.simps [simp del]

text \<open>
  \<^verbatim>\<open>nodeIdCounter += 1; return `node_${Date.now()}_${nodeIdCounter}`\<close>: the id and the
  new counter.
\<close>

definition makeNodeId :: "(nat \<Rightarrow> nat) \<Rightarrow> nat \<Rightarrow> string \<times> nat" where
  "makeNodeId clock c = (''node_'' @ dec (clock (Suc c)) @ ''_'' @ dec (Suc c), Suc c)"

definition getDefaultPosition :: "nat \<Rightarrow> position" where
  "getDefaultPosition idx =
     (let colSpacing = 360; rowSpacing = 160; col = idx mod 4; row = idx div 4
      in Position (120 + real col * colSpacing) (120 + real row * rowSpacing))"

text \<open>
  The body of the \<^verbatim>\<open>forEach\<close> of \<^verbatim>\<open>ensurePositions\<close> on one entry: the index and the
  counter come in, the entry and the counter go out.
\<close>

definition ensureEntry :: "(nat \<Rightarrow> nat) \<Rightarrow> nat \<Rightarrow> nat \<Rightarrow> entry \<Rightarrow> entry \<times> nat" where
  "ensureEntry clock idx c e =
     (let e1 = (if position e = None then e\<lparr>position := Some (getDefaultPosition idx)\<rparr> else e);
          (e2, c2) = (if \<not> truthy (entry_id e1)
                      then (e1\<lparr>entry_id := Some (fst (makeNodeId clock c))\<rparr>, snd (makeNodeId clock c))
                      else (e1, c));
          e3 = (if inputs e2 = None then e2\<lparr>inputs := Some []\<rparr> else e2)
      in (e3, c2))"

fun ensureFrom :: "(nat \<Rightarrow> nat) \<Rightarrow> nat \<Rightarrow> nat \<Rightarrow> entry list \<Rightarrow> entry list \<times> nat" where
  "ensureFrom clock idx c [] = ([], c)"
| "ensureFrom clock idx c (e # es) =
     (let (e', c1) = ensureEntry clock idx c e;
          (es', c2) = ensureFrom clock (Suc idx) c1 es
      in (e' # es', c2))"

definition ensurePositions :: "env \<Rightarrow> editor \<Rightarrow> editor" where
  "ensurePositions ev st =
     (let (ch, c) = ensureFrom (now ev) 0 (nodeIdCounter st) (effectChain st)
      in st\<lparr>effectChain := ch, nodeIdCounter := c\<rparr>)"

text \<open>
  \<^verbatim>\<open>renderChain\<close> returns at once without \<^verbatim>\<open>effectChainContainer\<close>; otherwise it
  calls \<^verbatim>\<open>ensurePositions\<close> and builds the cards. \<^verbatim>\<open>renderChainList\<close> does the same
  for the list view; its callers below run it when the list view is active. Building the
  cards comes after the last write to the model and is not part of it: an exception
  raised there (\<^verbatim>\<open>INPUT_PORTS[entry.name]\<close> is not an array for a name such as
  \<^verbatim>\<open>constructor\<close>) leaves the model as these functions return it.
\<close>

definition renderChain :: "env \<Rightarrow> editor \<Rightarrow> editor" where
  "renderChain ev st = (if hasContainer ev then ensurePositions ev st else st)"

definition renderChainList :: "env \<Rightarrow> editor \<Rightarrow> editor" where
  "renderChainList ev st = ensurePositions ev st"

definition renderActiveList :: "env \<Rightarrow> editor \<Rightarrow> editor" where
  "renderActiveList ev st = (if listActive ev then renderChainList ev st else st)"

subsection \<open>Lookup\<close>

text \<open>\<^verbatim>\<open>effectChain.find(e => e.id === nodeId)\<close> and \<^verbatim>\<open>findIndex\<close> with the same test.\<close>

definition getEntryById :: "entry list \<Rightarrow> string option \<Rightarrow> entry option" where
  "getEntryById ch nodeId = find (\<lambda>e. entry_id e = nodeId) ch"

fun findIndexFrom :: "nat \<Rightarrow> string option \<Rightarrow> entry list \<Rightarrow> nat option" where
  "findIndexFrom i nodeId [] = None"
| "findIndexFrom i nodeId (e # es) =
     (if entry_id e = nodeId then Some i else findIndexFrom (Suc i) nodeId es)"

definition findIndexById :: "entry list \<Rightarrow> string option \<Rightarrow> nat option" where
  "findIndexById ch nodeId = findIndexFrom 0 nodeId ch"

subsection \<open>Removing a node\<close>

text \<open>\<^verbatim>\<open>xs.filter(i => i !== nodeId)\<close>: holes are not visited, so they are not kept.\<close>

definition purge :: "string option \<Rightarrow> slot list \<Rightarrow> slot list" where
  "purge nodeId xs = filter (\<lambda>i. i \<noteq> Hole \<and> \<not> slot_is i nodeId) xs"

definition splice1 :: "nat \<Rightarrow> 'a list \<Rightarrow> 'a list" where
  "splice1 idx xs = take idx xs @ drop (Suc idx) xs"

definition removeEffectById :: "env \<Rightarrow> string option \<Rightarrow> editor \<Rightarrow> editor" where
  "removeEffectById ev nodeId st =
     (case findIndexById (effectChain st) nodeId of
        None \<Rightarrow> st
      | Some idx \<Rightarrow>
          let ch1 = splice1 idx (effectChain st);
              ch2 = map (\<lambda>e. e\<lparr>inputs := Some (purge nodeId (inputs_of e))\<rparr>) ch1
          in renderActiveList ev (renderChain ev (st\<lparr>effectChain := ch2\<rparr>)))"

subsection \<open>Maximum input counts\<close>

definition getMaxInputs :: "string option \<Rightarrow> nat" where
  "getMaxInputs effectName =
     (if effectName = Some ''mix'' then 2
      else if effectName = Some ''transfer-motion'' then 2
      else if effectName = Some ''chopper'' then 4
      else if effectName = Some ''source'' \<or> effectName = Some ''source-local''
              \<or> effectName = Some ''noise'' then 0
      else 1)"

subsection \<open>Connecting two nodes\<close>

text \<open>\<^verbatim>\<open>while (inputs.length < maxInputs) inputs.push(null)\<close>\<close>

definition padNull :: "nat \<Rightarrow> slot list \<Rightarrow> slot list" where
  "padNull maxInputs xs = xs @ replicate (maxInputs - length xs) Null"

text \<open>
  \<^verbatim>\<open>inputs[portIndex] = fromId\<close> on a JavaScript array: a write past the end extends the
  array, and the slots in between are holes.
\<close>

definition arraySet :: "slot list \<Rightarrow> nat \<Rightarrow> slot \<Rightarrow> slot list" where
  "arraySet xs i v =
     (if i < length xs then xs[i := v] else xs @ replicate (i - length xs) Hole @ [v])"

text \<open>
  The loop \<^verbatim>\<open>for (let i = 0; i < inputs.length; i++)\<close> that sets to \<^verbatim>\<open>null\<close> every slot
  other than \<^verbatim>\<open>portIndex\<close> that holds \<^verbatim>\<open>fromId\<close>; \<open>i\<close> is the index of the head.
\<close>

fun dedupe :: "string \<Rightarrow> nat \<Rightarrow> nat \<Rightarrow> slot list \<Rightarrow> slot list" where
  "dedupe fromId portIndex i [] = []"
| "dedupe fromId portIndex i (s # ss) =
     (if s = Ref fromId \<and> i \<noteq> portIndex then Null else s) # dedupe fromId portIndex (Suc i) ss"

text \<open>The new value of \<^verbatim>\<open>target.inputs\<close>.\<close>

definition connectInputs :: "string \<Rightarrow> nat \<Rightarrow> nat \<Rightarrow> slot list \<Rightarrow> slot list" where
  "connectInputs fromId portIndex maxInputs xs =
     take maxInputs (dedupe fromId portIndex 0 (arraySet (padNull maxInputs xs) portIndex (Ref fromId)))"

text \<open>
  \<^verbatim>\<open>getEntryById\<close> returns the object itself, and the assignment to its field changes
  the first entry of the array that passes the test.
\<close>

fun updateFirst :: "('a \<Rightarrow> bool) \<Rightarrow> ('a \<Rightarrow> 'a) \<Rightarrow> 'a list \<Rightarrow> 'a list" where
  "updateFirst P f [] = []"
| "updateFirst P f (x # xs) = (if P x then f x # xs else x # updateFirst P f xs)"

text \<open>
  \<open>portIndex\<close> is the index that the port's \<^verbatim>\<open>data-port-index\<close> gives, a natural number.
  \<open>the fromId\<close> is read only after the guard has found \<open>fromId\<close> truthy.
\<close>

definition connectNodes :: "env \<Rightarrow> string option \<Rightarrow> string option \<Rightarrow> nat \<Rightarrow> editor \<Rightarrow> editor" where
  "connectNodes ev fromId toId portIndex st =
     (if \<not> truthy fromId \<or> \<not> truthy toId \<or> fromId = toId then st
      else case getEntryById (effectChain st) toId of
        None \<Rightarrow> st
      | Some target \<Rightarrow>
          let maxInputs = getMaxInputs (name target) in
          if maxInputs = 0 then st
          else
            let inputs' = connectInputs (the fromId) portIndex maxInputs (inputs_of target);
                ch = updateFirst (\<lambda>e. entry_id e = toId) (\<lambda>e. e\<lparr>inputs := Some inputs'\<rparr>)
                       (effectChain st)
            in renderChain ev (st\<lparr>effectChain := ch\<rparr>))"

subsection \<open>Changing the effect of a node\<close>

text \<open>
  The \<^verbatim>\<open>change\<close> handlers of the effect select, in the list view and on the canvas card,
  write the same three fields of the entry they were built for.
\<close>

definition retargetEntry :: "string \<Rightarrow> entry \<Rightarrow> entry" where
  "retargetEntry newName e =
     (let xs = inputs_of e; maxInputs = getMaxInputs (Some newName)
      in e\<lparr>name := Some newName, options := Some [],
            inputs := Some (if length xs > maxInputs then take maxInputs xs else xs)\<rparr>)"

text \<open>
  \<open>i\<close> is the place in \<^verbatim>\<open>effectChain\<close> of the entry the handler closes over. The list
  view's handler (\<open>fromList\<close>) calls \<^verbatim>\<open>renderChainList\<close> after \<^verbatim>\<open>renderChain\<close>.
\<close>

definition retargetNode :: "env \<Rightarrow> bool \<Rightarrow> nat \<Rightarrow> string \<Rightarrow> editor \<Rightarrow> editor" where
  "retargetNode ev fromList i newName st =
     (if i < length (effectChain st)
      then
        let st1 = renderChain ev
              (st\<lparr>effectChain := (effectChain st)[i := retargetEntry newName (effectChain st ! i)]\<rparr>)
        in if fromList then renderChainList ev st1 else st1
      else st)"

subsection \<open>Adding a node\<close>

definition sourceLocalExistsMessage :: string where
  "sourceLocalExistsMessage =
     ''Le n'' @ [CHR 0xC5, CHR 0x93] @ ''ud source local existe d'' @ [CHR 0xC3, CHR 0xA9]
       @ ''j'' @ [CHR 0xC3, CHR 0xA0] @ ''.''"

definition showToast :: "string \<Rightarrow> bool \<Rightarrow> editor \<Rightarrow> editor" where
  "showToast message isError st = st\<lparr>toasts := toasts st @ [Toast message isError]\<rparr>"

text \<open>\<^verbatim>\<open>getEffectDefinition(name) || availableEffects[0]\<close>, of which only the name is read.\<close>

definition effectNameFor :: "string list \<Rightarrow> string \<Rightarrow> string option" where
  "effectNameFor effects nm =
     (case find (\<lambda>e. e = nm) effects of
        Some d \<Rightarrow> Some d
      | None \<Rightarrow> (case effects of [] \<Rightarrow> None | d # _ \<Rightarrow> Some d))"

definition addEffect :: "env \<Rightarrow> string \<Rightarrow> position option \<Rightarrow> editor \<Rightarrow> editor" where
  "addEffect ev nm positionOverride st =
     (if nm = ''source-local'' \<and> (\<exists>e \<in> set (effectChain st). name e = Some ''source-local'')
      then showToast sourceLocalExistsMessage True st
      else case effectNameFor (availableEffects ev) nm of
        None \<Rightarrow> st
      | Some defName \<Rightarrow>
          let pos = (case positionOverride of
                       Some p \<Rightarrow> p
                     | None \<Rightarrow> (case viewportCenter ev of
                                  Some c \<Rightarrow> c
                                | None \<Rightarrow> getDefaultPosition (length (effectChain st))));
              (newId, c) = makeNodeId (now ev) (nodeIdCounter st);
              node = \<lparr>entry_id = Some newId, name = Some defName, options = Some [],
                      inputs = Some [], position = Some pos\<rparr>
          in renderActiveList ev (renderChain ev
               (st\<lparr>effectChain := effectChain st @ [node], nodeIdCounter := c\<rparr>)))"

subsection \<open>Normalising a loaded chain\<close>

text \<open>The object literal of \<^verbatim>\<open>normalizeChainData\<close> for the entry at \<open>idx\<close>.\<close>

definition normalizeEntry :: "(nat \<Rightarrow> nat) \<Rightarrow> nat \<Rightarrow> nat \<Rightarrow> entry \<Rightarrow> entry \<times> nat" where
  "normalizeEntry clock idx c e =
     (let (i, c1) = (if truthy (entry_id e) then (the (entry_id e), c) else makeNodeId clock c)
      in (\<lparr>entry_id = Some i,
           name = name e,
           options = Some (case options e of None \<Rightarrow> [] | Some m \<Rightarrow> m),
           inputs = Some (inputs_of e),
           position = Some (case position e of None \<Rightarrow> getDefaultPosition idx | Some p \<Rightarrow> p)\<rparr>,
          c1))"

fun normalizeFrom :: "(nat \<Rightarrow> nat) \<Rightarrow> nat \<Rightarrow> nat \<Rightarrow> entry list \<Rightarrow> entry list \<times> nat" where
  "normalizeFrom clock idx c [] = ([], c)"
| "normalizeFrom clock idx c (e # es) =
     (let (e', c1) = normalizeEntry clock idx c e;
          (es', c2) = normalizeFrom clock (Suc idx) c1 es
      in (e' # es', c2))"

text \<open>
  The argument is \<open>None\<close> when the loaded value is not an array. The result is the new
  array and the counter after the calls of \<^verbatim>\<open>makeNodeId\<close>.
\<close>

definition normalizeChainData :: "(nat \<Rightarrow> nat) \<Rightarrow> entry list option \<Rightarrow> nat \<Rightarrow> entry list \<times> nat" where
  "normalizeChainData clock chain c =
     (case chain of None \<Rightarrow> ([], c) | Some es \<Rightarrow> normalizeFrom clock 0 c es)"

subsection \<open>The viewport\<close>



definition clampScale :: "real \<Rightarrow> real" where
  "clampScale v = min 1.9 (max 0.45 v)"



subsection \<open>A chain to compute with\<close>

text \<open>
  A source \<open>a\<close>, a one-input effect \<open>b\<close> fed by \<open>a\<close>, and a mix node \<open>m\<close> fed by
  \<open>a\<close> on port A and by \<open>b\<close> on port B, in an editor whose two views exist; and a
  chain of a source and a mix node that is not connected yet.
\<close>

definition exampleEnv :: env where
  "exampleEnv = \<lparr>now = (\<lambda>c. 1700000000000 + c), hasContainer = True, listActive = True,
                  viewportCenter = None,
                  availableEffects = [''source'', ''source-local'', ''glitch'', ''mix'']\<rparr>"

definition exampleNode :: "string \<Rightarrow> string \<Rightarrow> slot list \<Rightarrow> nat \<Rightarrow> entry" where
  "exampleNode i n xs idx =
     \<lparr>entry_id = Some i, name = Some n, options = Some [], inputs = Some xs,
      position = Some (getDefaultPosition idx)\<rparr>"

definition exampleEditor :: editor where
  "exampleEditor =
     \<lparr>effectChain = [exampleNode ''a'' ''source'' [] 0,
                     exampleNode ''b'' ''glitch'' [Ref ''a''] 1,
                     exampleNode ''m'' ''mix'' [Ref ''a'', Ref ''b''] 2],
      nodeIdCounter = 3, toasts = []\<rparr>"

definition sourceMixEditor :: editor where
  "sourceMixEditor =
     \<lparr>effectChain = [exampleNode ''s'' ''source'' [] 0, exampleNode ''m'' ''mix'' [] 1],
      nodeIdCounter = 2, toasts = []\<rparr>"

text \<open>
  A chain as a preset file can hold it: already in canonical shape, with a one-input
  effect \<open>g\<close> that carries two inputs.
\<close>

definition overfullChain :: "entry list" where
  "overfullChain =
     [exampleNode ''a'' ''source'' [] 0,
      exampleNode ''g'' ''glitch'' [Ref ''a'', Null] 1,
      exampleNode ''m'' ''mix'' [] 2]"

definition overfullEditor :: editor where
  "overfullEditor = \<lparr>effectChain = overfullChain, nodeIdCounter = 0, toasts = []\<rparr>"




lemmas example_defs = exampleEnv_def exampleNode_def exampleEditor_def sourceMixEditor_def

section \<open>What a render writes to the model\<close>

text \<open>
  \<^verbatim>\<open>ensurePositions\<close> fills in what is missing and changes nothing else: the inputs
  read through \<^verbatim>\<open>e.inputs || []\<close> and the names stay, and so do the ids of a chain
  whose entries all have one.
\<close>

lemma ensureEntry_inputs_of: "inputs_of (fst (ensureEntry clock idx c e)) = inputs_of e"
  by (simp add: ensureEntry_def inputs_of_def Let_def split: option.splits)

lemma ensureEntry_name: "name (fst (ensureEntry clock idx c e)) = name e"
  by (simp add: ensureEntry_def Let_def)

lemma ensureEntry_id: "truthy (entry_id e) \<Longrightarrow> entry_id (fst (ensureEntry clock idx c e)) = entry_id e"
  by (simp add: ensureEntry_def Let_def)

lemma ensureEntry_counter: "truthy (entry_id e) \<Longrightarrow> snd (ensureEntry clock idx c e) = c"
  by (simp add: ensureEntry_def Let_def)

lemma ensureFrom_length: "length (fst (ensureFrom clock idx c es)) = length es"
  by (induction es arbitrary: idx c) (simp_all add: split_beta Let_def)

lemma ensureFrom_inputs_of: "map inputs_of (fst (ensureFrom clock idx c es)) = map inputs_of es"
  by (induction es arbitrary: idx c) (simp_all add: split_beta Let_def ensureEntry_inputs_of)

lemma ensureFrom_name: "map name (fst (ensureFrom clock idx c es)) = map name es"
  by (induction es arbitrary: idx c) (simp_all add: split_beta Let_def ensureEntry_name)

lemma ensureFrom_id:
  "\<forall>e \<in> set es. truthy (entry_id e) \<Longrightarrow> map entry_id (fst (ensureFrom clock idx c es)) = map entry_id es"
  by (induction es arbitrary: idx c) (simp_all add: split_beta Let_def ensureEntry_id)

lemma ensureFrom_all_ids:
  "\<forall>e \<in> set es. truthy (entry_id e) \<Longrightarrow> snd (ensureFrom clock idx c es) = c"
  by (induction es arbitrary: idx c) (simp_all add: split_beta Let_def ensureEntry_counter)

lemma ensurePositions_chain:
  "effectChain (ensurePositions ev st) = fst (ensureFrom (now ev) 0 (nodeIdCounter st) (effectChain st))"
  by (simp add: ensurePositions_def split_beta)

lemma renderChain_inputs_of:
  "map inputs_of (effectChain (renderChain ev st)) = map inputs_of (effectChain st)"
  by (simp add: renderChain_def ensurePositions_chain ensureFrom_inputs_of)

lemma renderActiveList_inputs_of:
  "map inputs_of (effectChain (renderActiveList ev st)) = map inputs_of (effectChain st)"
  by (simp add: renderActiveList_def renderChainList_def ensurePositions_chain ensureFrom_inputs_of)

lemma renderChain_name:
  "map name (effectChain (renderChain ev st)) = map name (effectChain st)"
  by (simp add: renderChain_def ensurePositions_chain ensureFrom_name)

lemma renderActiveList_name:
  "map name (effectChain (renderActiveList ev st)) = map name (effectChain st)"
  by (simp add: renderActiveList_def renderChainList_def ensurePositions_chain ensureFrom_name)

lemma renderChain_ids:
  "\<forall>e \<in> set (effectChain st). truthy (entry_id e) \<Longrightarrow>
   map entry_id (effectChain (renderChain ev st)) = map entry_id (effectChain st)"
  by (simp add: renderChain_def ensurePositions_chain ensureFrom_id)

lemma renderChain_length: "length (effectChain (renderChain ev st)) = length (effectChain st)"
  by (simp add: renderChain_def ensurePositions_chain ensureFrom_length)

lemma all_ids_from_map:
  "map entry_id ch' = map entry_id ch \<Longrightarrow>
   (\<forall>e \<in> set ch'. truthy (entry_id e)) = (\<forall>e \<in> set ch. truthy (entry_id e))"
proof -
  assume eq: "map entry_id ch' = map entry_id ch"
  have "(\<forall>e \<in> set ch'. truthy (entry_id e)) = (\<forall>v \<in> set (map entry_id ch'). truthy v)"
    by simp
  also have "\<dots> = (\<forall>v \<in> set (map entry_id ch). truthy v)"
    by (simp only: eq)
  also have "\<dots> = (\<forall>e \<in> set ch. truthy (entry_id e))"
    by simp
  finally show ?thesis .
qed

section \<open>Lookup by id\<close>

lemma findIndexFrom_Some:
  "findIndexFrom i nodeId es = Some k \<Longrightarrow> i \<le> k \<and> k - i < length es \<and> entry_id (es ! (k - i)) = nodeId"
proof (induction es arbitrary: i)
  case Nil
  then show ?case by simp
next
  case (Cons e es)
  show ?case
  proof (cases "entry_id e = nodeId")
    case True
    with Cons.prems show ?thesis by simp
  next
    case False
    with Cons.prems have "findIndexFrom (Suc i) nodeId es = Some k" by simp
    from Cons.IH[OF this] have "Suc i \<le> k" "k - Suc i < length es" "entry_id (es ! (k - Suc i)) = nodeId"
      by simp_all
    then show ?thesis by (simp add: Suc_diff_le nth_Cons')
  qed
qed

lemma findIndexFrom_None:
  "findIndexFrom i nodeId es = None \<longleftrightarrow> (\<forall>e \<in> set es. entry_id e \<noteq> nodeId)"
  by (induction es arbitrary: i) auto

lemma findIndexById_Some:
  "findIndexById ch nodeId = Some i \<Longrightarrow> i < length ch \<and> entry_id (ch ! i) = nodeId"
  using findIndexFrom_Some[of 0 nodeId ch i] by (simp add: findIndexById_def)

lemma findIndexFrom_cong:
  assumes "map entry_id ch = map entry_id ch'"
  shows "findIndexFrom i nodeId ch = findIndexFrom i nodeId ch'"
proof -
  from assms have "length ch = length ch'" by (rule map_eq_imp_length_eq)
  then show ?thesis using assms
  proof (induction ch ch' arbitrary: i rule: list_induct2)
    case Nil
    show ?case by simp
  next
    case (Cons x xs y ys)
    from Cons.prems have hd: "entry_id x = entry_id y" and tl: "map entry_id xs = map entry_id ys"
      by simp_all
    have ih: "findIndexFrom (Suc i) nodeId xs = findIndexFrom (Suc i) nodeId ys"
      by (rule Cons.IH[OF tl])
    have "findIndexFrom i nodeId (x # xs) =
            (if entry_id y = nodeId then Some i else findIndexFrom (Suc i) nodeId ys)"
      by (simp only: findIndexFrom.simps hd ih)
    then show ?case by (simp only: findIndexFrom.simps)
  qed
qed

lemma findIndexById_cong:
  "map entry_id ch = map entry_id ch' \<Longrightarrow> findIndexById ch nodeId = findIndexById ch' nodeId"
  unfolding findIndexById_def by (rule findIndexFrom_cong)

lemma getEntryById_findIndex:
  "getEntryById ch nodeId = map_option (\<lambda>i. ch ! i) (findIndexById ch nodeId)"
proof -
  have "find (\<lambda>e. entry_id e = nodeId) ch = map_option (\<lambda>k. ch ! (k - i)) (findIndexFrom i nodeId ch)" for i
  proof (induction ch arbitrary: i)
    case Nil
    then show ?case by simp
  next
    case (Cons e es)
    show ?case
    proof (cases "entry_id e = nodeId")
      case True
      then show ?thesis by simp
    next
      case False
      have "map_option (\<lambda>k. (e # es) ! (k - i)) (findIndexFrom (Suc i) nodeId es)
            = map_option (\<lambda>k. es ! (k - Suc i)) (findIndexFrom (Suc i) nodeId es)"
      proof (cases "findIndexFrom (Suc i) nodeId es")
        case None
        then show ?thesis by simp
      next
        case (Some k)
        from findIndexFrom_Some[OF Some] have "Suc i \<le> k" by simp
        then show ?thesis using Some by (simp add: nth_Cons' Suc_diff_le)
      qed
      with False Cons.IH[of "Suc i"] show ?thesis by simp
    qed
  qed
  from this[of 0] show ?thesis by (simp add: getEntryById_def findIndexById_def)
qed

lemma updateFirst_findIndexFrom:
  "updateFirst (\<lambda>e. entry_id e = nodeId) g ch =
     (case findIndexFrom i nodeId ch of None \<Rightarrow> ch | Some k \<Rightarrow> ch[k - i := g (ch ! (k - i))])"
proof (induction ch arbitrary: i)
  case Nil
  then show ?case by simp
next
  case (Cons e es)
  show ?case
  proof (cases "entry_id e = nodeId")
    case True
    then show ?thesis by simp
  next
    case False
    show ?thesis
    proof (cases "findIndexFrom (Suc i) nodeId es")
      case None
      with False Cons.IH[of "Suc i"] show ?thesis by simp
    next
      case (Some k)
      from findIndexFrom_Some[OF Some] have "Suc i \<le> k" by simp
      then obtain d where d: "k - i = Suc d" "k - Suc i = d"
        by (metis Suc_diff_le diff_Suc_Suc)
      with False Some Cons.IH[of "Suc i"] show ?thesis by simp
    qed
  qed
qed

lemma updateFirst_findIndex:
  "findIndexById ch nodeId = Some i \<Longrightarrow>
   updateFirst (\<lambda>e. entry_id e = nodeId) g ch = ch[i := g (ch ! i)]"
  using updateFirst_findIndexFrom[of nodeId g ch 0] by (simp add: findIndexById_def)

section \<open>Removing a node\<close>

lemma purge_no_ref: "Ref nid \<notin> set (purge (Some nid) xs)"
  by (simp add: purge_def)

lemma slot_is_Some: "slot_is s (Some nid) \<longleftrightarrow> s = Ref nid"
  by (cases s) auto

lemma purge_Some: "purge (Some nid) xs = filter (\<lambda>s. \<not> (s = Ref nid \<or> s = Hole)) xs"
  by (auto simp: purge_def slot_is_Some intro: filter_cong)

lemma removeEffectById_inputs:
  assumes "findIndexById (effectChain st) nodeId = Some idx"
  shows "map inputs_of (effectChain (removeEffectById ev nodeId st)) =
         map (\<lambda>e. purge nodeId (inputs_of e)) (splice1 idx (effectChain st))"
  using assms
  by (simp add: removeEffectById_def Let_def renderActiveList_inputs_of renderChain_inputs_of
      inputs_of_def comp_def)

lemma filter_nth_shift:
  assumes "i < length xs" and "P (xs ! i)"
  shows "i - length (filter (\<lambda>s. \<not> P s) (take i xs)) < length (filter P xs) \<and>
         filter P xs ! (i - length (filter (\<lambda>s. \<not> P s) (take i xs))) = xs ! i"
proof -
  have split: "xs = take i xs @ xs ! i # drop (Suc i) xs"
    using assms(1) by (simp add: id_take_nth_drop)
  have "length (filter P (take i xs)) + length (filter (\<lambda>s. \<not> P s) (take i xs)) = length (take i xs)"
    by (rule sum_length_filter_compl)
  then have k: "i - length (filter (\<lambda>s. \<not> P s) (take i xs)) = length (filter P (take i xs))"
    using assms(1) by simp
  have "filter P xs = filter P (take i xs) @ filter P (xs ! i # drop (Suc i) xs)"
    by (subst split) (simp only: filter_append)
  then have f: "filter P xs = filter P (take i xs) @ xs ! i # filter P (drop (Suc i) xs)"
    using assms(2) by simp
  show ?thesis
    unfolding k by (subst (1 2) f) simp
qed

lemmas eval_defs =
  removeEffectById_def findIndexById_def splice1_def purge_def inputs_of_def
  renderActiveList_def renderChainList_def renderChain_def ensurePositions_def
  ensureEntry_def truthy_def getDefaultPosition_def Let_def

text \<open>
  Claim C1. For every chain and every node id present in it, after
  \<^verbatim>\<open>removeEffectById\<close> of that id no entry left in the chain has the id anywhere in its
  \<^verbatim>\<open>inputs\<close>: removal leaves no dangling reference.
\<close>

theorem removeEffectById_no_dangling:
  assumes present: "\<exists>e \<in> set (effectChain st). entry_id e = Some nid"
  shows "\<forall>e \<in> set (effectChain (removeEffectById ev (Some nid) st)). Ref nid \<notin> set (inputs_of e)"
proof -
  from present obtain idx where idx: "findIndexById (effectChain st) (Some nid) = Some idx"
    using findIndexFrom_None[of 0 "Some nid" "effectChain st"]
    by (auto simp: findIndexById_def)
  define ch2 where "ch2 = map (\<lambda>e. e\<lparr>inputs := Some (purge (Some nid) (inputs_of e))\<rparr>)
                            (splice1 idx (effectChain st))"
  have after: "map inputs_of (effectChain (removeEffectById ev (Some nid) st)) = map inputs_of ch2"
    using idx by (simp add: removeEffectById_def ch2_def Let_def renderActiveList_inputs_of renderChain_inputs_of)
  have "\<forall>xs \<in> set (map inputs_of ch2). Ref nid \<notin> set xs"
    by (auto simp: ch2_def inputs_of_def purge_no_ref)
  then have "\<forall>xs \<in> set (map inputs_of (effectChain (removeEffectById ev (Some nid) st))). Ref nid \<notin> set xs"
    by (simp only: after)
  then show ?thesis by simp
qed

theorem removeEffectById_no_dangling_witness:
  "(\<exists>e \<in> set (effectChain exampleEditor). entry_id e = Some ''a'') \<and>
   length (effectChain (removeEffectById exampleEnv (Some ''a'') exampleEditor)) = 2 \<and>
   Ref ''a'' \<notin> set (inputs_of (effectChain (removeEffectById exampleEnv (Some ''a'') exampleEditor) ! 0)) \<and>
   Ref ''a'' \<notin> set (inputs_of (effectChain (removeEffectById exampleEnv (Some ''a'') exampleEditor) ! 1))"
proof -
  let ?ch = "effectChain (removeEffectById exampleEnv (Some ''a'') exampleEditor)"
  have h: "\<exists>e \<in> set (effectChain exampleEditor). entry_id e = Some ''a''"
    by (simp add: example_defs)
  have len: "length ?ch = 2"
    by (simp add: example_defs eval_defs)
  then have "?ch ! 0 \<in> set ?ch" and "?ch ! 1 \<in> set ?ch"
    by simp_all
  with removeEffectById_no_dangling[OF h, of exampleEnv] h len show ?thesis
    by blast
qed

text \<open>
  Claim C2, as amended. \<^verbatim>\<open>removeEffectById\<close> drops the removed id from the
  \<^verbatim>\<open>inputs\<close> of every entry left, and it does renumber: \<^verbatim>\<open>filter\<close> leaves no
  placeholder, so the array is shorter by the number of elements dropped, and a reference
  that stays moves down by the number of elements dropped before it. The entries left
  are those of the old chain without the one at the index found.
\<close>

theorem removeEffectById_shifts_inputs:
  assumes idx: "findIndexById (effectChain st) (Some nid) = Some idx"
  shows "let old = splice1 idx (effectChain st);
             new = effectChain (removeEffectById ev (Some nid) st);
             gone = (\<lambda>s. s = Ref nid \<or> s = Hole)
         in length new = length old \<and>
            (\<forall>j < length old.
               length (inputs_of (new ! j)) =
                 length (inputs_of (old ! j)) - length (filter gone (inputs_of (old ! j))) \<and>
               (\<forall>i < length (inputs_of (old ! j)). \<not> gone (inputs_of (old ! j) ! i) \<longrightarrow>
                  i - length (filter gone (take i (inputs_of (old ! j)))) < length (inputs_of (new ! j)) \<and>
                  inputs_of (new ! j) ! (i - length (filter gone (take i (inputs_of (old ! j)))))
                    = inputs_of (old ! j) ! i))"
proof -
  define old where "old = splice1 idx (effectChain st)"
  define new where "new = effectChain (removeEffectById ev (Some nid) st)"
  define gone where "gone = (\<lambda>s. s = Ref nid \<or> s = Hole)"
  have m: "map inputs_of new = map (\<lambda>e. filter (\<lambda>s. \<not> gone s) (inputs_of e)) old"
    unfolding new_def old_def gone_def
    by (simp add: removeEffectById_inputs[OF idx] purge_Some)
  from m have len: "length new = length old"
    by (metis length_map)
  have nth: "inputs_of (new ! j) = filter (\<lambda>s. \<not> gone s) (inputs_of (old ! j))" if "j < length old" for j
  proof -
    have "inputs_of (new ! j) = map inputs_of new ! j" using that len by simp
    also have "\<dots> = filter (\<lambda>s. \<not> gone s) (inputs_of (old ! j))" using that by (simp add: m)
    finally show ?thesis .
  qed
  have shrink: "length (inputs_of (new ! j)) = length (inputs_of (old ! j)) - length (filter gone (inputs_of (old ! j)))"
    if "j < length old" for j
  proof -
    have "length (filter gone (inputs_of (old ! j))) + length (filter (\<lambda>s. \<not> gone s) (inputs_of (old ! j)))
            = length (inputs_of (old ! j))"
      by (rule sum_length_filter_compl)
    then show ?thesis by (simp add: nth[OF that])
  qed
  have shift: "i - length (filter gone (take i (inputs_of (old ! j)))) < length (inputs_of (new ! j)) \<and>
               inputs_of (new ! j) ! (i - length (filter gone (take i (inputs_of (old ! j))))) = inputs_of (old ! j) ! i"
    if "j < length old" "i < length (inputs_of (old ! j))" "\<not> gone (inputs_of (old ! j) ! i)" for i j
    using filter_nth_shift[of i "inputs_of (old ! j)" "\<lambda>s. \<not> gone s"] that
    by (simp add: nth[OF that(1)])
  show ?thesis
    unfolding Let_def old_def[symmetric] new_def[symmetric] gone_def[symmetric]
    using len shrink shift by blast
qed

theorem removeEffectById_shifts_inputs_witness:
  "findIndexById (effectChain exampleEditor) (Some ''a'') = Some 0 \<and>
   inputs_of (splice1 0 (effectChain exampleEditor) ! 1) = [Ref ''a'', Ref ''b''] \<and>
   length (effectChain (removeEffectById exampleEnv (Some ''a'') exampleEditor)) = 2 \<and>
   length (inputs_of (effectChain (removeEffectById exampleEnv (Some ''a'') exampleEditor) ! 1)) = 1 \<and>
   inputs_of (effectChain (removeEffectById exampleEnv (Some ''a'') exampleEditor) ! 1) ! 0 = Ref ''b''"
proof -
  let ?old = "splice1 0 (effectChain exampleEditor)"
  let ?new = "effectChain (removeEffectById exampleEnv (Some ''a'') exampleEditor)"
  let ?gone = "\<lambda>s. s = Ref ''a'' \<or> s = Hole"
  have h: "findIndexById (effectChain exampleEditor) (Some ''a'') = Some 0"
    by (simp add: example_defs findIndexById_def)
  have old: "length ?old = 2" "inputs_of (?old ! 1) = [Ref ''a'', Ref ''b'']"
    by (simp_all add: example_defs splice1_def inputs_of_def)
  from old(2) have old': "inputs_of (?old ! Suc 0) = [Ref ''a'', Ref ''b'']" by simp
  note inst = removeEffectById_shifts_inputs[OF h, of exampleEnv, unfolded Let_def]
  from inst have len: "length ?new = length ?old" by blast
  from inst old(1) have
    "length (inputs_of (?new ! 1)) =
       length (inputs_of (?old ! 1)) - length (filter ?gone (inputs_of (?old ! 1)))"
    by simp
  then have l1: "length (inputs_of (?new ! 1)) = 1" by (simp add: old')
  from inst old(1) have
    "\<forall>i < length (inputs_of (?old ! 1)). \<not> ?gone (inputs_of (?old ! 1) ! i) \<longrightarrow>
       inputs_of (?new ! 1) ! (i - length (filter ?gone (take i (inputs_of (?old ! 1)))))
         = inputs_of (?old ! 1) ! i"
    by simp
  from this[rule_format, of "Suc 0"] have n0: "inputs_of (?new ! 1) ! 0 = Ref ''b''"
    by (simp add: old')
  from h old(2) len old(1) l1 n0 show ?thesis by simp
qed

text \<open>
  In the example chain the mix node has \<open>a\<close> on port 0 and \<open>b\<close> on port 1; once \<open>a\<close>
  is removed, \<open>b\<close> is on port 0 and there is no port 1 any more.
\<close>

theorem removeEffectById_renumbers_counterexample:
  "inputs_of (effectChain exampleEditor ! 2) = [Ref ''a'', Ref ''b''] \<and>
   inputs_of (effectChain (removeEffectById exampleEnv (Some ''a'') exampleEditor) ! 1) = [Ref ''b'']"
  by (simp add: example_defs eval_defs)

section \<open>Connecting two nodes\<close>

text \<open>
  The array that \<^verbatim>\<open>connectNodes\<close> stores has the length of the maximum input count.
  Below that length, slot \<open>portIndex\<close> holds \<open>fromId\<close>, a slot that held \<open>fromId\<close> is
  \<^verbatim>\<open>null\<close>, and any other slot holds what the padded old array held.
\<close>

lemma truthy_Some: "truthy (Some s) \<longleftrightarrow> s \<noteq> []"
  by (simp add: truthy_def)

lemma map_update_same: "i < length xs \<Longrightarrow> (map g xs)[i := g (xs ! i)] = map g xs"
  by (simp add: list_update_same_conv)

lemma dedupe_length: "length (dedupe f p i ys) = length ys"
  by (induction ys arbitrary: i) simp_all

lemma dedupe_nth:
  "k < length ys \<Longrightarrow>
   dedupe f p i ys ! k = (if ys ! k = Ref f \<and> i + k \<noteq> p then Null else ys ! k)"
proof (induction ys arbitrary: i k)
  case Nil
  then show ?case by simp
next
  case (Cons s ss)
  show ?case
  proof (cases k)
    case 0
    then show ?thesis by simp
  next
    case (Suc k')
    with Cons.prems have "k' < length ss" by simp
    from Cons.IH[OF this, of "Suc i"] Suc show ?thesis by simp
  qed
qed

lemma padNull_length: "length (padNull m xs) = max m (length xs)"
  by (simp add: padNull_def)

lemma arraySet_length: "length (arraySet ys p v) = max (length ys) (Suc p)"
  by (simp add: arraySet_def)

lemma arraySet_nth:
  "k < length ys \<Longrightarrow> arraySet ys p v ! k = (if k = p then v else ys ! k)"
  by (auto simp: arraySet_def nth_append)

lemma connectInputs_length: "length (connectInputs f p m xs) = m"
  by (simp add: connectInputs_def dedupe_length arraySet_length padNull_length)

lemma connectInputs_nth:
  assumes "k < m"
  shows "connectInputs f p m xs ! k =
           (if k = p then Ref f
            else if padNull m xs ! k = Ref f then Null else padNull m xs ! k)"
proof -
  have k: "k < length (padNull m xs)" using assms by (simp add: padNull_length)
  then have k': "k < length (arraySet (padNull m xs) p (Ref f))" by (simp add: arraySet_length)
  have "connectInputs f p m xs ! k = dedupe f p 0 (arraySet (padNull m xs) p (Ref f)) ! k"
    using assms by (simp add: connectInputs_def)
  also have "\<dots> = (if arraySet (padNull m xs) p (Ref f) ! k = Ref f \<and> k \<noteq> p then Null
                     else arraySet (padNull m xs) p (Ref f) ! k)"
    using dedupe_nth[OF k', of f p 0] by simp
  also have "\<dots> = (if k = p then Ref f
                     else if padNull m xs ! k = Ref f then Null else padNull m xs ! k)"
    using k by (auto simp: arraySet_nth)
  finally show ?thesis .
qed

lemma connectInputs_valid_port:
  assumes "q < m"
  shows "{k. k < length (connectInputs f q m xs) \<and> connectInputs f q m xs ! k = Ref f} = {q}"
  using assms by (auto simp: connectInputs_length connectInputs_nth split: if_splits)

lemma connectInputs_invalid_port:
  assumes "m \<le> p"
  shows "connectInputs f p m xs = map (\<lambda>s. if s = Ref f then Null else s) (take m (padNull m xs))"
proof (rule nth_equalityI)
  show "length (connectInputs f p m xs) = length (map (\<lambda>s. if s = Ref f then Null else s) (take m (padNull m xs)))"
    by (simp add: connectInputs_length padNull_length)
next
  fix k assume "k < length (connectInputs f p m xs)"
  then have k: "k < m" by (simp add: connectInputs_length)
  then have "k \<noteq> p" using assms by simp
  then show "connectInputs f p m xs ! k = map (\<lambda>s. if s = Ref f then Null else s) (take m (padNull m xs)) ! k"
    using k by (simp add: connectInputs_nth padNull_length)
qed

lemma connectInputs_invalid_port_absent:
  assumes "m \<le> p"
  shows "Ref f \<notin> set (connectInputs f p m xs)"
  by (auto simp: connectInputs_invalid_port[OF assms])

lemma connectInputs_port_slots:
  "{k. k < length (connectInputs f q m xs) \<and> connectInputs f q m xs ! k = Ref f}
     = (if q < m then {q} else {})"
proof (cases "q < m")
  case True
  then show ?thesis by (simp add: connectInputs_valid_port)
next
  case False
  then have "Ref f \<notin> set (connectInputs f q m xs)"
    by (simp add: connectInputs_invalid_port_absent)
  then have "\<forall>k < length (connectInputs f q m xs). connectInputs f q m xs ! k \<noteq> Ref f"
    by (metis nth_mem)
  with False show ?thesis by auto
qed

lemma connectNodes_skips:
  assumes "\<not> truthy fromId \<or> \<not> truthy toId \<or> fromId = toId
           \<or> getEntryById (effectChain st) toId = None
           \<or> (\<exists>target. getEntryById (effectChain st) toId = Some target
                 \<and> getMaxInputs (name target) = 0)"
  shows "connectNodes ev fromId toId portIndex st = st"
  using assms by (auto simp: connectNodes_def split: option.splits)

lemma connectNodes_acts:
  assumes f: "f \<noteq> []" and t: "t \<noteq> []" and ft: "f \<noteq> t"
    and i: "findIndexById (effectChain st) (Some t) = Some i"
    and m: "0 < getMaxInputs (name (effectChain st ! i))"
  shows "connectNodes ev (Some f) (Some t) p st =
         renderChain ev (st\<lparr>effectChain := (effectChain st)
           [i := (effectChain st ! i)\<lparr>inputs :=
              Some (connectInputs f p (getMaxInputs (name (effectChain st ! i)))
                      (inputs_of (effectChain st ! i)))\<rparr>]\<rparr>)"
proof -
  have g: "getEntryById (effectChain st) (Some t) = Some (effectChain st ! i)"
    by (simp add: getEntryById_findIndex i)
  show ?thesis
    using f t ft m
    by (simp add: connectNodes_def truthy_Some g Let_def updateFirst_findIndex[OF i])
qed

lemma connectNodes_step:
  fixes ev :: env and p :: nat
  assumes ids: "\<forall>e \<in> set (effectChain st). truthy (entry_id e)"
    and f: "f \<noteq> []" and t: "t \<noteq> []" and ft: "f \<noteq> t"
    and i: "findIndexById (effectChain st) (Some t) = Some i"
    and m: "0 < getMaxInputs (name (effectChain st ! i))"
  defines "st' \<equiv> connectNodes ev (Some f) (Some t) p st"
  shows "map entry_id (effectChain st') = map entry_id (effectChain st)"
    and "map name (effectChain st') = map name (effectChain st)"
    and "map inputs_of (effectChain st') =
           (map inputs_of (effectChain st))
             [i := connectInputs f p (getMaxInputs (name (effectChain st ! i)))
                     (inputs_of (effectChain st ! i))]"
proof -
  let ?e = "(effectChain st ! i)\<lparr>inputs :=
              Some (connectInputs f p (getMaxInputs (name (effectChain st ! i)))
                      (inputs_of (effectChain st ! i)))\<rparr>"
  let ?ch = "(effectChain st)[i := ?e]"
  have st': "st' = renderChain ev (st\<lparr>effectChain := ?ch\<rparr>)"
    unfolding st'_def by (rule connectNodes_acts[OF f t ft i m])
  have il: "i < length (effectChain st)" using findIndexById_Some[OF i] by simp
  have "map entry_id ?ch = (map entry_id (effectChain st))[i := map entry_id (effectChain st) ! i]"
    using il by (simp add: map_update)
  then have idmap: "map entry_id ?ch = map entry_id (effectChain st)"
    by (simp only: list_update_id)
  have ids': "\<forall>e \<in> set ?ch. truthy (entry_id e)"
    using ids all_ids_from_map[OF idmap] by simp
  show "map entry_id (effectChain st') = map entry_id (effectChain st)"
    using renderChain_ids[of "st\<lparr>effectChain := ?ch\<rparr>" ev] ids' idmap by (simp add: st')
  show "map name (effectChain st') = map name (effectChain st)"
    using il by (simp add: st' renderChain_name map_update map_update_same)
  show "map inputs_of (effectChain st') =
           (map inputs_of (effectChain st))
             [i := connectInputs f p (getMaxInputs (name (effectChain st ! i)))
                     (inputs_of (effectChain st ! i))]"
    by (simp add: st' renderChain_inputs_of map_update inputs_of_def)
qed

lemma connectNodes_target:
  fixes ev :: env and p :: nat
  assumes ids: "\<forall>e \<in> set (effectChain st). truthy (entry_id e)"
    and f: "f \<noteq> []" and t: "t \<noteq> []" and ft: "f \<noteq> t"
    and tgt: "getEntryById (effectChain st) (Some t) = Some target"
    and m: "0 < getMaxInputs (name target)"
  shows "\<exists>target'. getEntryById (effectChain (connectNodes ev (Some f) (Some t) p st)) (Some t) = Some target'
           \<and> name target' = name target
           \<and> inputs_of target' = connectInputs f p (getMaxInputs (name target)) (inputs_of target)"
    and "\<forall>e \<in> set (effectChain (connectNodes ev (Some f) (Some t) p st)). truthy (entry_id e)"
proof -
  let ?st' = "connectNodes ev (Some f) (Some t) p st"
  from tgt obtain i where i: "findIndexById (effectChain st) (Some t) = Some i"
    and target: "target = effectChain st ! i"
    by (auto simp: getEntryById_findIndex)
  have il: "i < length (effectChain st)" using findIndexById_Some[OF i] by simp
  have m': "0 < getMaxInputs (name (effectChain st ! i))" using m target by simp
  note step = connectNodes_step[OF ids f t ft i m', of ev p]
  have len: "length (effectChain ?st') = length (effectChain st)"
    using step(1) by (rule map_eq_imp_length_eq)
  have i': "findIndexById (effectChain ?st') (Some t) = Some i"
    using findIndexById_cong[OF step(1)] i by simp
  have "name (effectChain ?st' ! i) = map name (effectChain ?st') ! i"
    using il len by simp
  also have "\<dots> = name target" using il target by (simp add: step(2))
  finally have nm: "name (effectChain ?st' ! i) = name target" .
  have "inputs_of (effectChain ?st' ! i) = map inputs_of (effectChain ?st') ! i"
    using il len by simp
  also have "\<dots> = connectInputs f p (getMaxInputs (name target)) (inputs_of target)"
    using il target by (simp add: step(3))
  finally have inp: "inputs_of (effectChain ?st' ! i)
                     = connectInputs f p (getMaxInputs (name target)) (inputs_of target)" .
  have "getEntryById (effectChain ?st') (Some t) = Some (effectChain ?st' ! i)"
    by (simp add: getEntryById_findIndex i')
  with nm inp show "\<exists>target'. getEntryById (effectChain ?st') (Some t) = Some target'
           \<and> name target' = name target
           \<and> inputs_of target' = connectInputs f p (getMaxInputs (name target)) (inputs_of target)"
    by blast
  show "\<forall>e \<in> set (effectChain ?st'). truthy (entry_id e)"
    using all_ids_from_map[OF step(1)] ids by simp
qed

lemmas connect_eval_defs =
  connectNodes_def getEntryById_def getMaxInputs_def connectInputs_def padNull_def arraySet_def

text \<open>
  Claim C3. In a chain whose entries all have an id, let \<open>toId\<close> name an entry, let
  \<open>fromId\<close> be another id, and let \<open>otherPortIndex\<close> be a port of that entry, an index
  below the maximum input count of its effect (which therefore accepts at least one
  input). After \<^verbatim>\<open>connectNodes(fromId, toId, portIndex)\<close> and then
  \<^verbatim>\<open>connectNodes(fromId, toId, otherPortIndex)\<close>, \<open>fromId\<close> is in exactly one slot of
  the inputs of that entry, slot \<open>otherPortIndex\<close>: \<^verbatim>\<open>connectNodes\<close> has removed it from
  every other slot. This holds for any first index, equal to the second or not.
\<close>

theorem connectNodes_twice_one_slot:
  fixes ev :: env and p q :: nat
  assumes ids: "\<forall>e \<in> set (effectChain st). truthy (entry_id e)"
    and f: "f \<noteq> []" and t: "t \<noteq> []" and ft: "f \<noteq> t"
    and tgt: "getEntryById (effectChain st) (Some t) = Some target"
    and q: "q < getMaxInputs (name target)"
  shows "\<exists>target'.
           getEntryById (effectChain (connectNodes ev (Some f) (Some t) q
                                        (connectNodes ev (Some f) (Some t) p st))) (Some t)
             = Some target'
           \<and> name target' = name target
           \<and> length (inputs_of target') = getMaxInputs (name target)
           \<and> {k. k < length (inputs_of target') \<and> inputs_of target' ! k = Ref f} = {q}"
proof -
  let ?st1 = "connectNodes ev (Some f) (Some t) p st"
  from q have m: "0 < getMaxInputs (name target)" by simp
  from connectNodes_target[OF ids f t ft tgt m, of ev p]
  obtain t1 where t1: "getEntryById (effectChain ?st1) (Some t) = Some t1"
    and n1: "name t1 = name target"
    and ids1: "\<forall>e \<in> set (effectChain ?st1). truthy (entry_id e)"
    by blast
  have m1: "0 < getMaxInputs (name t1)" using m n1 by simp
  from connectNodes_target(1)[OF ids1 f t ft t1 m1, of ev q]
  obtain t2 where t2: "getEntryById (effectChain (connectNodes ev (Some f) (Some t) q ?st1)) (Some t) = Some t2"
    and n2: "name t2 = name t1"
    and i2: "inputs_of t2 = connectInputs f q (getMaxInputs (name t1)) (inputs_of t1)"
    by blast
  have "length (inputs_of t2) = getMaxInputs (name target)"
    by (simp add: i2 n1 connectInputs_length)
  moreover have "{k. k < length (inputs_of t2) \<and> inputs_of t2 ! k = Ref f} = {q}"
    using q by (simp only: i2 n1 connectInputs_port_slots if_True)
  ultimately show ?thesis using t2 n2 n1 by auto
qed

theorem connectNodes_twice_one_slot_witness:
  "list_all (\<lambda>e. truthy (entry_id e)) (effectChain exampleEditor) \<and>
   ''a'' \<noteq> [] \<and> ''m'' \<noteq> [] \<and> ''a'' \<noteq> ''m'' \<and>
   getEntryById (effectChain exampleEditor) (Some ''m'')
     = Some (exampleNode ''m'' ''mix'' [Ref ''a'', Ref ''b''] 2) \<and>
   1 < getMaxInputs (name (exampleNode ''m'' ''mix'' [Ref ''a'', Ref ''b''] 2)) \<and>
   (\<exists>target'.
      getEntryById (effectChain (connectNodes exampleEnv (Some ''a'') (Some ''m'') 1
                                   (connectNodes exampleEnv (Some ''a'') (Some ''m'') 0 exampleEditor)))
        (Some ''m'') = Some target'
      \<and> name target' = Some ''mix''
      \<and> length (inputs_of target') = 2
      \<and> {k. k < length (inputs_of target') \<and> inputs_of target' ! k = Ref ''a''} = {1})"
proof -
  let ?target = "exampleNode ''m'' ''mix'' [Ref ''a'', Ref ''b''] 2"
  have ids: "\<forall>e \<in> set (effectChain exampleEditor). truthy (entry_id e)"
    by (simp add: example_defs truthy_def)
  have tgt: "getEntryById (effectChain exampleEditor) (Some ''m'') = Some ?target"
    by (simp add: example_defs getEntryById_def)
  have nm: "name ?target = Some ''mix''"
    by (simp add: exampleNode_def)
  have m: "getMaxInputs (Some ''mix'') = 2"
    by (simp add: getMaxInputs_def)
  have q: "1 < getMaxInputs (name ?target)"
    by (simp add: nm m)
  have la: "list_all (\<lambda>e. truthy (entry_id e)) (effectChain exampleEditor)"
    using ids by (simp add: list_all_iff)
  from connectNodes_twice_one_slot[OF ids _ _ _ tgt q, of "''a''" exampleEnv 0]
  have "\<exists>target'.
      getEntryById (effectChain (connectNodes exampleEnv (Some ''a'') (Some ''m'') 1
                                   (connectNodes exampleEnv (Some ''a'') (Some ''m'') 0 exampleEditor)))
        (Some ''m'') = Some target'
      \<and> name target' = Some ''mix''
      \<and> length (inputs_of target') = 2
      \<and> {k. k < length (inputs_of target') \<and> inputs_of target' ! k = Ref ''a''} = {1}"
    by (simp add: nm m)
  with la tgt q show ?thesis by simp
qed

lemma connectInputs_mix_both:
  "connectInputs f 1 2 (connectInputs f 0 2 xs) = [Null, Ref f]"
proof (rule nth_equalityI)
  show "length (connectInputs f 1 2 (connectInputs f 0 2 xs)) = length [Null, Ref f]"
    by (simp add: connectInputs_length)
next
  fix k assume "k < length (connectInputs f 1 2 (connectInputs f 0 2 xs))"
  then have k: "k < 2" by (simp add: connectInputs_length)
  have pad: "padNull 2 (connectInputs f 0 2 xs) = connectInputs f 0 2 xs"
    by (simp add: padNull_def connectInputs_length)
  have first: "connectInputs f 0 2 xs ! 0 = Ref f"
    by (simp add: connectInputs_nth)
  from k have "k = 0 \<or> k = 1" by auto
  then show "connectInputs f 1 2 (connectInputs f 0 2 xs) ! k = [Null, Ref f] ! k"
  proof
    assume "k = 0"
    then show ?thesis by (simp add: connectInputs_nth pad first)
  next
    assume "k = 1"
    then show ?thesis by (simp add: connectInputs_nth)
  qed
qed

text \<open>
  Claim C4, as amended. In a chain whose entries all have an id, with a mix node
  \<open>mixId\<close> and another id \<open>sourceId\<close>, \<^verbatim>\<open>connectNodes(sourceId, mixId, 0)\<close> and then
  \<^verbatim>\<open>connectNodes(sourceId, mixId, 1)\<close> leave the mix node with the inputs
  \<^verbatim>\<open>[null, sourceId]\<close>: the second call moves the source from port 0 to port 1, and the
  two ports never hold the same source.
\<close>

theorem connectNodes_mix_both_ports:
  fixes ev :: env
  assumes ids: "\<forall>e \<in> set (effectChain st). truthy (entry_id e)"
    and f: "f \<noteq> []" and t: "t \<noteq> []" and ft: "f \<noteq> t"
    and tgt: "getEntryById (effectChain st) (Some t) = Some target"
    and mix: "name target = Some ''mix''"
  shows "\<exists>target'.
           getEntryById (effectChain (connectNodes ev (Some f) (Some t) 1
                                        (connectNodes ev (Some f) (Some t) 0 st))) (Some t)
             = Some target'
           \<and> name target' = Some ''mix''
           \<and> inputs_of target' = [Null, Ref f]"
proof -
  let ?st1 = "connectNodes ev (Some f) (Some t) 0 st"
  have two: "getMaxInputs (Some ''mix'') = 2" by (simp add: getMaxInputs_def)
  have m: "0 < getMaxInputs (name target)" by (simp add: mix two)
  from connectNodes_target[OF ids f t ft tgt m, of ev 0]
  obtain t1 where t1: "getEntryById (effectChain ?st1) (Some t) = Some t1"
    and n1: "name t1 = name target"
    and i1: "inputs_of t1 = connectInputs f 0 (getMaxInputs (name target)) (inputs_of target)"
    and ids1: "\<forall>e \<in> set (effectChain ?st1). truthy (entry_id e)"
    by blast
  have m1: "0 < getMaxInputs (name t1)" using m n1 by simp
  from connectNodes_target(1)[OF ids1 f t ft t1 m1, of ev 1]
  obtain t2 where t2: "getEntryById (effectChain (connectNodes ev (Some f) (Some t) 1 ?st1)) (Some t) = Some t2"
    and n2: "name t2 = name t1"
    and i2: "inputs_of t2 = connectInputs f 1 (getMaxInputs (name t1)) (inputs_of t1)"
    by blast
  have "inputs_of t2 = connectInputs f 1 2 (connectInputs f 0 2 (inputs_of target))"
    by (simp only: i2 i1 n1 mix two)
  then have "inputs_of t2 = [Null, Ref f]"
    by (simp only: connectInputs_mix_both)
  with t2 n2 n1 mix show ?thesis by simp
qed

theorem connectNodes_mix_both_ports_witness:
  "list_all (\<lambda>e. truthy (entry_id e)) (effectChain sourceMixEditor) \<and>
   ''s'' \<noteq> [] \<and> ''m'' \<noteq> [] \<and> ''s'' \<noteq> ''m'' \<and>
   getEntryById (effectChain sourceMixEditor) (Some ''m'') = Some (exampleNode ''m'' ''mix'' [] 1) \<and>
   name (exampleNode ''m'' ''mix'' [] 1) = Some ''mix'' \<and>
   (\<exists>target'.
      getEntryById (effectChain (connectNodes exampleEnv (Some ''s'') (Some ''m'') 1
                                   (connectNodes exampleEnv (Some ''s'') (Some ''m'') 0 sourceMixEditor)))
        (Some ''m'') = Some target'
      \<and> name target' = Some ''mix''
      \<and> inputs_of target' = [Null, Ref ''s''])"
proof -
  let ?target = "exampleNode ''m'' ''mix'' [] 1"
  have ids: "\<forall>e \<in> set (effectChain sourceMixEditor). truthy (entry_id e)"
    by (simp add: example_defs truthy_def)
  have tgt: "getEntryById (effectChain sourceMixEditor) (Some ''m'') = Some ?target"
    by (simp add: example_defs getEntryById_def)
  have nm: "name ?target = Some ''mix''"
    by (simp add: exampleNode_def)
  have la: "list_all (\<lambda>e. truthy (entry_id e)) (effectChain sourceMixEditor)"
    using ids by (simp add: list_all_iff)
  from connectNodes_mix_both_ports[OF ids _ _ _ tgt nm, of "''s''" exampleEnv] la tgt nm
  show ?thesis by simp
qed

text \<open>
  The chain of the scenario, a source \<open>s\<close> and a mix node \<open>m\<close>: the result is
  \<^verbatim>\<open>[null, s]\<close> and not \<^verbatim>\<open>[s, s]\<close>.
\<close>

theorem connectNodes_mix_both_ports_counterexample:
  "map_option inputs_of
     (getEntryById (effectChain (connectNodes exampleEnv (Some ''s'') (Some ''m'') 1
                                   (connectNodes exampleEnv (Some ''s'') (Some ''m'') 0 sourceMixEditor)))
        (Some ''m'')) = Some [Null, Ref ''s''] \<and>
   map_option inputs_of
     (getEntryById (effectChain (connectNodes exampleEnv (Some ''s'') (Some ''m'') 1
                                   (connectNodes exampleEnv (Some ''s'') (Some ''m'') 0 sourceMixEditor)))
        (Some ''m'')) \<noteq> Some [Ref ''s'', Ref ''s'']"
  by (simp add: example_defs eval_defs connect_eval_defs numeral_2_eq_2)

text \<open>
  Claim C6, as amended. \<^verbatim>\<open>connectNodes(fromId, toId, portIndex)\<close> returns the editor
  as it was whenever \<open>fromId\<close> or \<open>toId\<close> is absent or empty, or the two are equal, or
  \<open>toId\<close> is the id of no entry of the chain, or the effect of the entry it names accepts
  no input. That \<open>fromId\<close> is the id of an entry is not checked.
\<close>

theorem connectNodes_noop:
  assumes "\<not> truthy fromId \<or> \<not> truthy toId \<or> fromId = toId
           \<or> getEntryById (effectChain st) toId = None
           \<or> (\<exists>target. getEntryById (effectChain st) toId = Some target
                 \<and> getMaxInputs (name target) = 0)"
  shows "connectNodes ev fromId toId portIndex st = st"
  using assms by (rule connectNodes_skips)

theorem connectNodes_noop_witness:
  "\<not> truthy None \<and> \<not> truthy (Some '''') \<and>
   getEntryById (effectChain exampleEditor) (Some ''zz'') = None \<and>
   getEntryById (effectChain exampleEditor) (Some ''a'') = Some (exampleNode ''a'' ''source'' [] 0) \<and>
   getMaxInputs (name (exampleNode ''a'' ''source'' [] 0)) = 0 \<and>
   connectNodes exampleEnv None (Some ''b'') 0 exampleEditor = exampleEditor \<and>
   connectNodes exampleEnv (Some ''a'') (Some '''') 0 exampleEditor = exampleEditor \<and>
   connectNodes exampleEnv (Some ''b'') (Some ''b'') 0 exampleEditor = exampleEditor \<and>
   connectNodes exampleEnv (Some ''a'') (Some ''zz'') 0 exampleEditor = exampleEditor \<and>
   connectNodes exampleEnv (Some ''b'') (Some ''a'') 0 exampleEditor = exampleEditor"
proof -
  have h1: "\<not> truthy None" and h2: "\<not> truthy (Some '''')"
    by (simp_all add: truthy_def)
  have h4: "getEntryById (effectChain exampleEditor) (Some ''zz'') = None"
    by (simp add: example_defs getEntryById_def)
  have h5: "getEntryById (effectChain exampleEditor) (Some ''a'') = Some (exampleNode ''a'' ''source'' [] 0)"
    by (simp add: example_defs getEntryById_def)
  have h6: "getMaxInputs (name (exampleNode ''a'' ''source'' [] 0)) = 0"
    by (simp add: exampleNode_def getMaxInputs_def)
  have c1: "connectNodes exampleEnv None (Some ''b'') 0 exampleEditor = exampleEditor"
    using h1 by (intro connectNodes_noop) simp
  have c2: "connectNodes exampleEnv (Some ''a'') (Some '''') 0 exampleEditor = exampleEditor"
    using h2 by (intro connectNodes_noop) simp
  have c3: "connectNodes exampleEnv (Some ''b'') (Some ''b'') 0 exampleEditor = exampleEditor"
    by (intro connectNodes_noop) simp
  have c4: "connectNodes exampleEnv (Some ''a'') (Some ''zz'') 0 exampleEditor = exampleEditor"
    using h4 by (intro connectNodes_noop) simp
  have c5: "connectNodes exampleEnv (Some ''b'') (Some ''a'') 0 exampleEditor = exampleEditor"
    using h5 h6 by (intro connectNodes_noop) simp
  from h1 h2 h4 h5 h6 c1 c2 c3 c4 c5 show ?thesis by simp
qed

text \<open>
  In the example chain no entry has the id \<open>ghost\<close>, and connecting it to \<open>b\<close> replaces
  the input of \<open>b\<close>.
\<close>

theorem connectNodes_unknown_source_counterexample:
  "getEntryById (effectChain exampleEditor) (Some ''ghost'') = None \<and>
   map_option inputs_of (getEntryById (effectChain exampleEditor) (Some ''b'')) = Some [Ref ''a''] \<and>
   map_option inputs_of
     (getEntryById (effectChain (connectNodes exampleEnv (Some ''ghost'') (Some ''b'') 0 exampleEditor))
        (Some ''b'')) = Some [Ref ''ghost''] \<and>
   connectNodes exampleEnv (Some ''ghost'') (Some ''b'') 0 exampleEditor \<noteq> exampleEditor"
proof -
  let ?st' = "connectNodes exampleEnv (Some ''ghost'') (Some ''b'') 0 exampleEditor"
  have a: "getEntryById (effectChain exampleEditor) (Some ''ghost'') = None"
    by (simp add: example_defs getEntryById_def)
  have b: "map_option inputs_of (getEntryById (effectChain exampleEditor) (Some ''b'')) = Some [Ref ''a'']"
    by (simp add: example_defs getEntryById_def inputs_of_def)
  have c: "map_option inputs_of (getEntryById (effectChain ?st') (Some ''b'')) = Some [Ref ''ghost'']"
    by (simp add: example_defs eval_defs connect_eval_defs)
  have "?st' \<noteq> exampleEditor"
  proof
    assume "?st' = exampleEditor"
    with c have "map_option inputs_of (getEntryById (effectChain exampleEditor) (Some ''b''))
                 = Some [Ref ''ghost'']"
      by (simp only:)
    with b show False by simp
  qed
  with a b c show ?thesis by simp
qed

text \<open>
  Claim C7, as amended. In a chain whose entries all have an id, a
  \<^verbatim>\<open>connectNodes\<close> whose \<open>portIndex\<close> is not below the maximum input count of the target
  never stores \<open>fromId\<close>. It returns the editor as it was when the target accepts no
  input. Otherwise the inputs of the target become the old ones padded with \<^verbatim>\<open>null\<close>
  and cut to the maximum input count, with \<^verbatim>\<open>null\<close> in every slot that held
  \<open>fromId\<close>; they are the old inputs only when the old inputs already had that form.
\<close>

theorem connectNodes_invalid_port:
  fixes ev :: env and p :: nat
  assumes ids: "\<forall>e \<in> set (effectChain st). truthy (entry_id e)"
    and f: "f \<noteq> []" and t: "t \<noteq> []" and ft: "f \<noteq> t"
    and tgt: "getEntryById (effectChain st) (Some t) = Some target"
    and p: "getMaxInputs (name target) \<le> p"
  shows "(getMaxInputs (name target) = 0 \<longrightarrow> connectNodes ev (Some f) (Some t) p st = st) \<and>
         (0 < getMaxInputs (name target) \<longrightarrow>
            (\<exists>target'.
               getEntryById (effectChain (connectNodes ev (Some f) (Some t) p st)) (Some t) = Some target'
               \<and> name target' = name target
               \<and> inputs_of target' =
                   map (\<lambda>s. if s = Ref f then Null else s)
                     (take (getMaxInputs (name target))
                        (padNull (getMaxInputs (name target)) (inputs_of target)))
               \<and> Ref f \<notin> set (inputs_of target')))"
proof (intro conjI impI)
  assume "getMaxInputs (name target) = 0"
  with tgt show "connectNodes ev (Some f) (Some t) p st = st"
    by (simp add: connectNodes_def)
next
  assume m: "0 < getMaxInputs (name target)"
  from connectNodes_target(1)[OF ids f t ft tgt m, of ev p]
  obtain t1 where t1: "getEntryById (effectChain (connectNodes ev (Some f) (Some t) p st)) (Some t) = Some t1"
    and n1: "name t1 = name target"
    and i1: "inputs_of t1 = connectInputs f p (getMaxInputs (name target)) (inputs_of target)"
    by blast
  have "inputs_of t1 = map (\<lambda>s. if s = Ref f then Null else s)
                     (take (getMaxInputs (name target))
                        (padNull (getMaxInputs (name target)) (inputs_of target)))"
    by (simp only: i1 connectInputs_invalid_port[OF p])
  moreover have "Ref f \<notin> set (inputs_of t1)"
    by (simp only: i1 connectInputs_invalid_port_absent[OF p] not_False_eq_True)
  ultimately show "\<exists>target'.
               getEntryById (effectChain (connectNodes ev (Some f) (Some t) p st)) (Some t) = Some target'
               \<and> name target' = name target
               \<and> inputs_of target' =
                   map (\<lambda>s. if s = Ref f then Null else s)
                     (take (getMaxInputs (name target))
                        (padNull (getMaxInputs (name target)) (inputs_of target)))
               \<and> Ref f \<notin> set (inputs_of target')"
    using t1 n1 by blast
qed

theorem connectNodes_invalid_port_witness:
  "list_all (\<lambda>e. truthy (entry_id e)) (effectChain exampleEditor) \<and>
   ''b'' \<noteq> [] \<and> ''m'' \<noteq> [] \<and> ''b'' \<noteq> ''m'' \<and>
   getEntryById (effectChain exampleEditor) (Some ''m'')
     = Some (exampleNode ''m'' ''mix'' [Ref ''a'', Ref ''b''] 2) \<and>
   getMaxInputs (name (exampleNode ''m'' ''mix'' [Ref ''a'', Ref ''b''] 2)) = 2 \<and>
   (\<exists>target'.
      getEntryById (effectChain (connectNodes exampleEnv (Some ''b'') (Some ''m'') 2 exampleEditor))
        (Some ''m'') = Some target'
      \<and> name target' = Some ''mix''
      \<and> inputs_of target' = [Ref ''a'', Null])"
proof -
  let ?target = "exampleNode ''m'' ''mix'' [Ref ''a'', Ref ''b''] 2"
  have ids: "\<forall>e \<in> set (effectChain exampleEditor). truthy (entry_id e)"
    by (simp add: example_defs truthy_def)
  have tgt: "getEntryById (effectChain exampleEditor) (Some ''m'') = Some ?target"
    by (simp add: example_defs getEntryById_def)
  have nm: "name ?target = Some ''mix''" and inp: "inputs_of ?target = [Ref ''a'', Ref ''b'']"
    by (simp_all add: exampleNode_def inputs_of_def)
  have m: "getMaxInputs (name ?target) = 2"
    by (simp add: nm getMaxInputs_def)
  have p: "getMaxInputs (name ?target) \<le> 2"
    by (simp add: m)
  have la: "list_all (\<lambda>e. truthy (entry_id e)) (effectChain exampleEditor)"
    using ids by (simp add: list_all_iff)
  from connectNodes_invalid_port[OF ids _ _ _ tgt p, of "''b''" exampleEnv]
  have "\<exists>target'.
      getEntryById (effectChain (connectNodes exampleEnv (Some ''b'') (Some ''m'') 2 exampleEditor))
        (Some ''m'') = Some target'
      \<and> name target' = Some ''mix''
      \<and> inputs_of target' = [Ref ''a'', Null]"
    by (auto simp: nm inp padNull_def getMaxInputs_def)
  with la tgt m show ?thesis by simp
qed

text \<open>
  The mix node of the example chain has \<open>b\<close> on port 1; connecting \<open>b\<close> to its port 2,
  which it does not have, takes \<open>b\<close> off port 1.
\<close>

theorem connectNodes_invalid_port_counterexample:
  "getMaxInputs (name (effectChain exampleEditor ! 2)) = 2 \<and>
   inputs_of (effectChain exampleEditor ! 2) = [Ref ''a'', Ref ''b''] \<and>
   inputs_of (effectChain (connectNodes exampleEnv (Some ''b'') (Some ''m'') 2 exampleEditor) ! 2)
     = [Ref ''a'', Null]"
  by (simp add: example_defs eval_defs connect_eval_defs numeral_2_eq_2)

section \<open>The bound on the number of inputs\<close>

lemma chain_pairs_cong:
  assumes "map inputs_of ch' = map inputs_of ch" and "map name ch' = map name ch"
  shows "(\<forall>e \<in> set ch'. length (inputs_of e) \<le> getMaxInputs (name e))
       = (\<forall>e \<in> set ch. length (inputs_of e) \<le> getMaxInputs (name e))"
proof -
  have eq: "map (\<lambda>e. (inputs_of e, name e)) ch' = map (\<lambda>e. (inputs_of e, name e)) ch"
  proof -
    have "map (\<lambda>e. (inputs_of e, name e)) ch' = zip (map inputs_of ch') (map name ch')"
      by (simp add: zip_map_map zip_same_conv_map)
    also have "\<dots> = zip (map inputs_of ch) (map name ch)"
      by (simp only: assms)
    also have "\<dots> = map (\<lambda>e. (inputs_of e, name e)) ch"
      by (simp add: zip_map_map zip_same_conv_map)
    finally show ?thesis .
  qed
  have "(\<forall>e \<in> set ch'. length (inputs_of e) \<le> getMaxInputs (name e))
        = (\<forall>v \<in> set (map (\<lambda>e. (inputs_of e, name e)) ch'). length (fst v) \<le> getMaxInputs (snd v))"
    by simp
  also have "\<dots> = (\<forall>v \<in> set (map (\<lambda>e. (inputs_of e, name e)) ch). length (fst v) \<le> getMaxInputs (snd v))"
    by (simp only: eq)
  also have "\<dots> = (\<forall>e \<in> set ch. length (inputs_of e) \<le> getMaxInputs (name e))"
    by simp
  finally show ?thesis .
qed

lemma bound_after_update:
  assumes inv: "\<forall>e \<in> set ch. length (inputs_of e) \<le> getMaxInputs (name e)"
    and e': "length (inputs_of e') \<le> getMaxInputs (name e')"
  shows "\<forall>e \<in> set (ch[i := e']). length (inputs_of e) \<le> getMaxInputs (name e)"
proof
  fix e assume "e \<in> set (ch[i := e'])"
  then have "e \<in> insert e' (set ch)" using set_update_subset_insert by fastforce
  with inv e' show "length (inputs_of e) \<le> getMaxInputs (name e)" by auto
qed

lemma retargetEntry_bound:
  "length (inputs_of (retargetEntry nm e)) \<le> getMaxInputs (name (retargetEntry nm e))"
  by (simp add: retargetEntry_def Let_def inputs_of_def)

lemma retargetEntry_name: "name (retargetEntry nm e) = Some nm"
  by (simp add: retargetEntry_def Let_def)

lemma renderChainList_inputs_of:
  "map inputs_of (effectChain (renderChainList ev st)) = map inputs_of (effectChain st)"
  by (simp add: renderChainList_def ensurePositions_chain ensureFrom_inputs_of)

lemma renderChainList_name:
  "map name (effectChain (renderChainList ev st)) = map name (effectChain st)"
  by (simp add: renderChainList_def ensurePositions_chain ensureFrom_name)

lemma retargetNode_maps:
  assumes "i < length (effectChain st)"
  shows "map inputs_of (effectChain (retargetNode ev fromList i nm st))
           = map inputs_of ((effectChain st)[i := retargetEntry nm (effectChain st ! i)])"
    and "map name (effectChain (retargetNode ev fromList i nm st))
           = map name ((effectChain st)[i := retargetEntry nm (effectChain st ! i)])"
  using assms
  by (simp_all add: retargetNode_def Let_def renderChainList_inputs_of renderChainList_name
      renderChain_inputs_of renderChain_name)

lemma connectNodes_cases:
  "connectNodes ev fromId toId p st = st \<or>
   (\<exists>f t i. fromId = Some f \<and> toId = Some t \<and> f \<noteq> [] \<and> t \<noteq> [] \<and> f \<noteq> t \<and>
      findIndexById (effectChain st) (Some t) = Some i \<and>
      0 < getMaxInputs (name (effectChain st ! i)))"
proof (cases "\<not> truthy fromId \<or> \<not> truthy toId \<or> fromId = toId
           \<or> getEntryById (effectChain st) toId = None
           \<or> (\<exists>target. getEntryById (effectChain st) toId = Some target
                 \<and> getMaxInputs (name target) = 0)")
  case True
  then show ?thesis by (simp add: connectNodes_skips)
next
  case False
  then obtain f t where ft: "fromId = Some f" "toId = Some t" "f \<noteq> []" "t \<noteq> []" "f \<noteq> t"
    by (cases fromId; cases toId) (auto simp: truthy_def)
  from False ft obtain target where tg: "getEntryById (effectChain st) (Some t) = Some target"
    and m: "0 < getMaxInputs (name target)"
    by auto
  from tg obtain i where "findIndexById (effectChain st) (Some t) = Some i" "target = effectChain st ! i"
    by (auto simp: getEntryById_findIndex)
  with ft m show ?thesis by auto
qed

lemma connectNodes_written:
  fixes ev :: env and p :: nat
  assumes f: "f \<noteq> []" and t: "t \<noteq> []" and ft: "f \<noteq> t"
    and i: "findIndexById (effectChain st) (Some t) = Some i"
    and m: "0 < getMaxInputs (name (effectChain st ! i))"
  shows "map name (effectChain (connectNodes ev (Some f) (Some t) p st)) = map name (effectChain st)"
    and "map inputs_of (effectChain (connectNodes ev (Some f) (Some t) p st)) =
           (map inputs_of (effectChain st))
             [i := connectInputs f p (getMaxInputs (name (effectChain st ! i)))
                     (inputs_of (effectChain st ! i))]"
proof -
  have il: "i < length (effectChain st)" using findIndexById_Some[OF i] by simp
  show "map name (effectChain (connectNodes ev (Some f) (Some t) p st)) = map name (effectChain st)"
    using il by (simp add: connectNodes_acts[OF f t ft i m] renderChain_name map_update map_update_same)
  show "map inputs_of (effectChain (connectNodes ev (Some f) (Some t) p st)) =
           (map inputs_of (effectChain st))
             [i := connectInputs f p (getMaxInputs (name (effectChain st ! i)))
                     (inputs_of (effectChain st ! i))]"
    by (simp add: connectNodes_acts[OF f t ft i m] renderChain_inputs_of map_update inputs_of_def)
qed

lemma connectNodes_keeps_bound:
  fixes ev :: env and p :: nat
  assumes inv: "\<forall>e \<in> set (effectChain st). length (inputs_of e) \<le> getMaxInputs (name e)"
  shows "\<forall>e \<in> set (effectChain (connectNodes ev fromId toId p st)).
           length (inputs_of e) \<le> getMaxInputs (name e)"
proof -
  let ?st' = "connectNodes ev fromId toId p st"
  from connectNodes_cases[of ev fromId toId p st] show ?thesis
  proof
    assume "?st' = st"
    with inv show ?thesis by simp
  next
    assume "\<exists>f t i. fromId = Some f \<and> toId = Some t \<and> f \<noteq> [] \<and> t \<noteq> [] \<and> f \<noteq> t \<and>
      findIndexById (effectChain st) (Some t) = Some i \<and>
      0 < getMaxInputs (name (effectChain st ! i))"
    then obtain f t i where ft: "fromId = Some f" "toId = Some t" and f: "f \<noteq> []" and t: "t \<noteq> []"
      and ne: "f \<noteq> t" and i: "findIndexById (effectChain st) (Some t) = Some i"
      and m: "0 < getMaxInputs (name (effectChain st ! i))"
      by blast
    let ?e = "(effectChain st ! i)\<lparr>inputs :=
              Some (connectInputs f p (getMaxInputs (name (effectChain st ! i)))
                      (inputs_of (effectChain st ! i)))\<rparr>"
    have il: "i < length (effectChain st)" using findIndexById_Some[OF i] by simp
    note w = connectNodes_written[OF f t ne i m, of ev p]
    have e: "length (inputs_of ?e) \<le> getMaxInputs (name ?e)"
      by (simp add: inputs_of_def connectInputs_length)
    have n: "map name (effectChain ?st') = map name ((effectChain st)[i := ?e])"
      using il by (simp add: ft w(1) map_update map_update_same)
    have x: "map inputs_of (effectChain ?st') = map inputs_of ((effectChain st)[i := ?e])"
      by (simp add: ft w(2) map_update inputs_of_def)
    show ?thesis
      using chain_pairs_cong[OF x n] bound_after_update[OF inv e, of i] by simp
  qed
qed

lemma retargetNode_keeps_bound:
  fixes ev :: env
  assumes inv: "\<forall>e \<in> set (effectChain st). length (inputs_of e) \<le> getMaxInputs (name e)"
  shows "\<forall>e \<in> set (effectChain (retargetNode ev fromList i nm st)).
           length (inputs_of e) \<le> getMaxInputs (name e)"
proof (cases "i < length (effectChain st)")
  case True
  note m = retargetNode_maps[OF True, of ev fromList nm]
  show ?thesis
    using chain_pairs_cong[OF m] bound_after_update[OF inv retargetEntry_bound, of i nm "effectChain st ! i"]
    by simp
next
  case False
  with inv show ?thesis by (simp add: retargetNode_def)
qed

lemma retargetNode_at:
  fixes ev :: env
  assumes il: "i < length (effectChain st)"
  shows "name (effectChain (retargetNode ev fromList i nm st) ! i) = Some nm"
    and "length (inputs_of (effectChain (retargetNode ev fromList i nm st) ! i)) \<le> getMaxInputs (Some nm)"
proof -
  let ?st' = "retargetNode ev fromList i nm st"
  note m = retargetNode_maps[OF il, of ev fromList nm]
  have len: "length (effectChain ?st') = length (effectChain st)"
    using m(2) by (metis length_map length_list_update)
  have "name (effectChain ?st' ! i) = map name (effectChain ?st') ! i"
    using il len by simp
  also have "\<dots> = Some nm" using il by (simp add: m(2) retargetEntry_name)
  finally show "name (effectChain ?st' ! i) = Some nm" .
  have "inputs_of (effectChain ?st' ! i) = map inputs_of (effectChain ?st') ! i"
    using il len by simp
  also have "\<dots> = inputs_of (retargetEntry nm (effectChain st ! i))" using il by (simp add: m(1))
  finally show "length (inputs_of (effectChain ?st' ! i)) \<le> getMaxInputs (Some nm)"
    using retargetEntry_bound[of nm "effectChain st ! i"] by (simp add: retargetEntry_name)
qed

lemma getMaxInputs_table:
  "getMaxInputs (Some ''mix'') = 2" "getMaxInputs (Some ''transfer-motion'') = 2"
  "getMaxInputs (Some ''chopper'') = 4" "getMaxInputs (Some ''source'') = 0"
  "getMaxInputs (Some ''source-local'') = 0" "getMaxInputs (Some ''noise'') = 0"
  by (simp_all add: getMaxInputs_def)

lemma getMaxInputs_other:
  "n \<notin> {Some ''mix'', Some ''transfer-motion'', Some ''chopper'', Some ''source'',
          Some ''source-local'', Some ''noise''} \<Longrightarrow> getMaxInputs n = 1"
  by (simp add: getMaxInputs_def)

lemma connectNodes_writes:
  fixes ev :: env and p :: nat
  assumes tf: "truthy fromId" and tt: "truthy toId" and ne: "fromId \<noteq> toId"
    and tgt: "getEntryById (effectChain st) toId = Some target"
    and m: "0 < getMaxInputs (name target)"
  shows "\<exists>k < length (effectChain st).
           findIndexById (effectChain st) toId = Some k \<and>
           name (effectChain (connectNodes ev fromId toId p st) ! k) = name target \<and>
           length (inputs_of (effectChain (connectNodes ev fromId toId p st) ! k))
             = getMaxInputs (name target)"
proof -
  let ?st' = "connectNodes ev fromId toId p st"
  from tf tt obtain f t where ft: "fromId = Some f" "toId = Some t" and f: "f \<noteq> []" and t: "t \<noteq> []"
    by (cases fromId; cases toId) (auto simp: truthy_def)
  from ne ft have ne': "f \<noteq> t" by simp
  from tgt ft obtain k where k: "findIndexById (effectChain st) (Some t) = Some k"
    and target: "target = effectChain st ! k"
    by (auto simp: getEntryById_findIndex)
  have m': "0 < getMaxInputs (name (effectChain st ! k))" using m target by simp
  note w = connectNodes_written[OF f t ne' k m', of ev p]
  have kl: "k < length (effectChain st)" using findIndexById_Some[OF k] by simp
  have len: "length (effectChain ?st') = length (effectChain st)"
    using w(1) ft by (metis length_map)
  have "name (effectChain ?st' ! k) = map name (effectChain ?st') ! k"
    using kl len by simp
  also have "\<dots> = name target"
    using kl by (simp add: ft w(1) target)
  finally have nm: "name (effectChain ?st' ! k) = name target" .
  have "inputs_of (effectChain ?st' ! k) = map inputs_of (effectChain ?st') ! k"
    using kl len by simp
  also have "\<dots> = connectInputs f p (getMaxInputs (name target)) (inputs_of target)"
    using kl by (simp add: ft w(2) target)
  finally have "length (inputs_of (effectChain ?st' ! k)) = getMaxInputs (name target)"
    by (simp add: connectInputs_length)
  with kl k ft nm show ?thesis by simp
qed

lemma connectNodes_others:
  fixes ev :: env and p :: nat
  shows "length (effectChain (connectNodes ev fromId toId p st)) = length (effectChain st)"
    and "j < length (effectChain st) \<Longrightarrow> findIndexById (effectChain st) toId \<noteq> Some j \<Longrightarrow>
         inputs_of (effectChain (connectNodes ev fromId toId p st) ! j) = inputs_of (effectChain st ! j) \<and>
         name (effectChain (connectNodes ev fromId toId p st) ! j) = name (effectChain st ! j)"
proof -
  let ?st' = "connectNodes ev fromId toId p st"
  have both: "length (effectChain ?st') = length (effectChain st) \<and>
        (j < length (effectChain st) \<longrightarrow> findIndexById (effectChain st) toId \<noteq> Some j \<longrightarrow>
         inputs_of (effectChain ?st' ! j) = inputs_of (effectChain st ! j) \<and>
         name (effectChain ?st' ! j) = name (effectChain st ! j))"
    using connectNodes_cases[of ev fromId toId p st]
  proof
    assume "?st' = st"
    then show ?thesis by simp
  next
    assume "\<exists>f t i. fromId = Some f \<and> toId = Some t \<and> f \<noteq> [] \<and> t \<noteq> [] \<and> f \<noteq> t \<and>
      findIndexById (effectChain st) (Some t) = Some i \<and>
      0 < getMaxInputs (name (effectChain st ! i))"
    then obtain f t i where ft: "fromId = Some f" "toId = Some t" and f: "f \<noteq> []" and t: "t \<noteq> []"
      and ne: "f \<noteq> t" and i: "findIndexById (effectChain st) (Some t) = Some i"
      and m: "0 < getMaxInputs (name (effectChain st ! i))"
      by blast
    note w = connectNodes_written[OF f t ne i m, of ev p]
    have len: "length (effectChain ?st') = length (effectChain st)"
      using w(1) ft by (metis length_map)
    have "inputs_of (effectChain ?st' ! j) = inputs_of (effectChain st ! j) \<and>
          name (effectChain ?st' ! j) = name (effectChain st ! j)"
      if jl: "j < length (effectChain st)" and nj: "findIndexById (effectChain st) toId \<noteq> Some j"
    proof -
      from nj i ft have ij: "i \<noteq> j" by auto
      have "inputs_of (effectChain ?st' ! j) = map inputs_of (effectChain ?st') ! j"
        using jl len by simp
      also have "\<dots> = inputs_of (effectChain st ! j)"
        using jl ij by (simp add: ft w(2))
      finally have a: "inputs_of (effectChain ?st' ! j) = inputs_of (effectChain st ! j)" .
      have "name (effectChain ?st' ! j) = map name (effectChain ?st') ! j"
        using jl len by simp
      also have "\<dots> = name (effectChain st ! j)"
        using jl by (simp add: ft w(1))
      finally show ?thesis using a by simp
    qed
    with len show ?thesis by simp
  qed
  from both show "length (effectChain ?st') = length (effectChain st)" by simp
  from both show "j < length (effectChain st) \<Longrightarrow> findIndexById (effectChain st) toId \<noteq> Some j \<Longrightarrow>
         inputs_of (effectChain ?st' ! j) = inputs_of (effectChain st ! j) \<and>
         name (effectChain ?st' ! j) = name (effectChain st ! j)" by simp
qed

lemma retargetNode_others:
  fixes ev :: env
  shows "length (effectChain (retargetNode ev fromList i nm st)) = length (effectChain st)"
    and "j < length (effectChain st) \<Longrightarrow> j \<noteq> i \<Longrightarrow>
         inputs_of (effectChain (retargetNode ev fromList i nm st) ! j) = inputs_of (effectChain st ! j) \<and>
         name (effectChain (retargetNode ev fromList i nm st) ! j) = name (effectChain st ! j)"
proof -
  let ?st' = "retargetNode ev fromList i nm st"
  have both: "length (effectChain ?st') = length (effectChain st) \<and>
        (j < length (effectChain st) \<longrightarrow> j \<noteq> i \<longrightarrow>
         inputs_of (effectChain ?st' ! j) = inputs_of (effectChain st ! j) \<and>
         name (effectChain ?st' ! j) = name (effectChain st ! j))"
  proof (cases "i < length (effectChain st)")
    case False
    then show ?thesis by (simp add: retargetNode_def)
  next
    case True
    note m = retargetNode_maps[OF True, of ev fromList nm]
    have len: "length (effectChain ?st') = length (effectChain st)"
      using m(2) by (metis length_map length_list_update)
    have "inputs_of (effectChain ?st' ! j) = inputs_of (effectChain st ! j) \<and>
          name (effectChain ?st' ! j) = name (effectChain st ! j)"
      if jl: "j < length (effectChain st)" and ji: "j \<noteq> i"
    proof -
      have "inputs_of (effectChain ?st' ! j) = map inputs_of (effectChain ?st') ! j"
        using jl len by simp
      also have "\<dots> = inputs_of (effectChain st ! j)"
        using jl ji by (simp add: m(1))
      finally have a: "inputs_of (effectChain ?st' ! j) = inputs_of (effectChain st ! j)" .
      have "name (effectChain ?st' ! j) = map name (effectChain ?st') ! j"
        using jl len by simp
      also have "\<dots> = name (effectChain st ! j)"
        using jl ji by (simp add: m(2))
      finally show ?thesis using a by simp
    qed
    with len show ?thesis by simp
  qed
  from both show "length (effectChain ?st') = length (effectChain st)" by simp
  from both show "j < length (effectChain st) \<Longrightarrow> j \<noteq> i \<Longrightarrow>
         inputs_of (effectChain ?st' ! j) = inputs_of (effectChain st ! j) \<and>
         name (effectChain ?st' ! j) = name (effectChain st ! j)" by simp
qed

text \<open>
  Claim C5, as amended. After a change of an entry's effect, that entry has the new name
  and at most as many inputs as the new effect accepts. After a \<^verbatim>\<open>connectNodes\<close> that
  passes its guards (both ids present, different, \<open>toId\<close> the id of an entry whose effect
  accepts an input), the entry that \<open>toId\<close> names has exactly as many inputs as its effect
  accepts. Neither call changes the length of the chain, nor the inputs or the name of any
  other entry. So when every entry is within its bound before the call, every entry is
  after it; an entry that is over its bound and is not written stays over it. The maximum
  is 2 for \<open>mix\<close> and \<open>transfer-motion\<close>, 4 for \<open>chopper\<close>, 0 for \<open>source\<close>,
  \<open>source-local\<close> and \<open>noise\<close>, and 1 for every other name.
\<close>

theorem inputs_length_within_max:
  fixes ev :: env and p :: nat
  shows "(i < length (effectChain st) \<longrightarrow>
            name (effectChain (retargetNode ev fromList i nm st) ! i) = Some nm \<and>
            length (inputs_of (effectChain (retargetNode ev fromList i nm st) ! i))
              \<le> getMaxInputs (Some nm))
       \<and> (\<forall>target. truthy fromId \<and> truthy toId \<and> fromId \<noteq> toId
              \<and> getEntryById (effectChain st) toId = Some target
              \<and> 0 < getMaxInputs (name target) \<longrightarrow>
            (\<exists>k < length (effectChain st).
               findIndexById (effectChain st) toId = Some k \<and>
               name (effectChain (connectNodes ev fromId toId p st) ! k) = name target \<and>
               length (inputs_of (effectChain (connectNodes ev fromId toId p st) ! k))
                 = getMaxInputs (name target)))
       \<and> length (effectChain (connectNodes ev fromId toId p st)) = length (effectChain st)
       \<and> (\<forall>j < length (effectChain st). findIndexById (effectChain st) toId \<noteq> Some j \<longrightarrow>
            inputs_of (effectChain (connectNodes ev fromId toId p st) ! j)
              = inputs_of (effectChain st ! j) \<and>
            name (effectChain (connectNodes ev fromId toId p st) ! j) = name (effectChain st ! j))
       \<and> length (effectChain (retargetNode ev fromList i nm st)) = length (effectChain st)
       \<and> (\<forall>j < length (effectChain st). j \<noteq> i \<longrightarrow>
            inputs_of (effectChain (retargetNode ev fromList i nm st) ! j)
              = inputs_of (effectChain st ! j) \<and>
            name (effectChain (retargetNode ev fromList i nm st) ! j) = name (effectChain st ! j))
       \<and> ((\<forall>e \<in> set (effectChain st). length (inputs_of e) \<le> getMaxInputs (name e)) \<longrightarrow>
            (\<forall>e \<in> set (effectChain (connectNodes ev fromId toId p st)).
               length (inputs_of e) \<le> getMaxInputs (name e)) \<and>
            (\<forall>e \<in> set (effectChain (retargetNode ev fromList i nm st)).
               length (inputs_of e) \<le> getMaxInputs (name e)))
       \<and> getMaxInputs (Some ''mix'') = 2 \<and> getMaxInputs (Some ''transfer-motion'') = 2
       \<and> getMaxInputs (Some ''chopper'') = 4
       \<and> getMaxInputs (Some ''source'') = 0 \<and> getMaxInputs (Some ''source-local'') = 0
       \<and> getMaxInputs (Some ''noise'') = 0
       \<and> (\<forall>n. n \<notin> {Some ''mix'', Some ''transfer-motion'', Some ''chopper'', Some ''source'',
                      Some ''source-local'', Some ''noise''} \<longrightarrow> getMaxInputs n = 1)"
proof -
  have a: "i < length (effectChain st) \<longrightarrow>
            name (effectChain (retargetNode ev fromList i nm st) ! i) = Some nm \<and>
            length (inputs_of (effectChain (retargetNode ev fromList i nm st) ! i))
              \<le> getMaxInputs (Some nm)"
    using retargetNode_at[of i st ev fromList nm] by simp
  have b: "\<forall>target. truthy fromId \<and> truthy toId \<and> fromId \<noteq> toId
              \<and> getEntryById (effectChain st) toId = Some target
              \<and> 0 < getMaxInputs (name target) \<longrightarrow>
            (\<exists>k < length (effectChain st).
               findIndexById (effectChain st) toId = Some k \<and>
               name (effectChain (connectNodes ev fromId toId p st) ! k) = name target \<and>
               length (inputs_of (effectChain (connectNodes ev fromId toId p st) ! k))
                 = getMaxInputs (name target))"
    using connectNodes_writes[of fromId toId st _ ev p] by blast
  have c: "length (effectChain (connectNodes ev fromId toId p st)) = length (effectChain st)"
    by (rule connectNodes_others(1))
  have d: "\<forall>j < length (effectChain st). findIndexById (effectChain st) toId \<noteq> Some j \<longrightarrow>
            inputs_of (effectChain (connectNodes ev fromId toId p st) ! j)
              = inputs_of (effectChain st ! j) \<and>
            name (effectChain (connectNodes ev fromId toId p st) ! j) = name (effectChain st ! j)"
    using connectNodes_others(2)[of _ st toId ev fromId p] by blast
  have e: "length (effectChain (retargetNode ev fromList i nm st)) = length (effectChain st)"
    by (rule retargetNode_others(1))
  have f: "\<forall>j < length (effectChain st). j \<noteq> i \<longrightarrow>
            inputs_of (effectChain (retargetNode ev fromList i nm st) ! j)
              = inputs_of (effectChain st ! j) \<and>
            name (effectChain (retargetNode ev fromList i nm st) ! j) = name (effectChain st ! j)"
    using retargetNode_others(2)[of _ st i ev fromList nm] by blast
  have g: "(\<forall>e \<in> set (effectChain st). length (inputs_of e) \<le> getMaxInputs (name e)) \<longrightarrow>
            (\<forall>e \<in> set (effectChain (connectNodes ev fromId toId p st)).
               length (inputs_of e) \<le> getMaxInputs (name e)) \<and>
            (\<forall>e \<in> set (effectChain (retargetNode ev fromList i nm st)).
               length (inputs_of e) \<le> getMaxInputs (name e))"
    using connectNodes_keeps_bound[of st ev fromId toId p]
      retargetNode_keeps_bound[of st ev fromList i nm] by blast
  have h: "\<forall>n. n \<notin> {Some ''mix'', Some ''transfer-motion'', Some ''chopper'', Some ''source'',
                      Some ''source-local'', Some ''noise''} \<longrightarrow> getMaxInputs n = 1"
    using getMaxInputs_other by blast
  from a b c d e f g h getMaxInputs_table show ?thesis
    by (intro conjI)
qed

theorem inputs_length_within_max_witness:
  "list_all (\<lambda>e. length (inputs_of e) \<le> getMaxInputs (name e)) (effectChain exampleEditor) \<and>
   list_all (\<lambda>e. length (inputs_of e) \<le> getMaxInputs (name e))
     (effectChain (connectNodes exampleEnv (Some ''b'') (Some ''m'') 0 exampleEditor)) \<and>
   list_all (\<lambda>e. length (inputs_of e) \<le> getMaxInputs (name e))
     (effectChain (retargetNode exampleEnv False 2 ''glitch'' exampleEditor)) \<and>
   2 < length (effectChain exampleEditor) \<and>
   name (effectChain (retargetNode exampleEnv False 2 ''glitch'' exampleEditor) ! 2) = Some ''glitch'' \<and>
   length (inputs_of (effectChain (retargetNode exampleEnv False 2 ''glitch'' exampleEditor) ! 2)) \<le> 1 \<and>
   truthy (Some ''b'') \<and> truthy (Some ''m'') \<and> Some ''b'' \<noteq> Some ''m'' \<and>
   getEntryById (effectChain exampleEditor) (Some ''m'')
     = Some (exampleNode ''m'' ''mix'' [Ref ''a'', Ref ''b''] 2) \<and>
   0 < getMaxInputs (name (exampleNode ''m'' ''mix'' [Ref ''a'', Ref ''b''] 2)) \<and>
   (\<exists>k < length (effectChain exampleEditor).
      findIndexById (effectChain exampleEditor) (Some ''m'') = Some k \<and>
      name (effectChain (connectNodes exampleEnv (Some ''b'') (Some ''m'') 0 exampleEditor) ! k)
        = Some ''mix'' \<and>
      length (inputs_of (effectChain (connectNodes exampleEnv (Some ''b'') (Some ''m'') 0 exampleEditor) ! k))
        = 2) \<and>
   length (effectChain (connectNodes exampleEnv (Some ''b'') (Some ''m'') 0 exampleEditor)) = 3 \<and>
   Some ''glitch'' \<notin> {Some ''mix'', Some ''transfer-motion'', Some ''chopper'', Some ''source'',
                       Some ''source-local'', Some ''noise''} \<and>
   getMaxInputs (Some ''glitch'') = 1"
proof -
  let ?target = "exampleNode ''m'' ''mix'' [Ref ''a'', Ref ''b''] 2"
  have inv: "\<forall>e \<in> set (effectChain exampleEditor). length (inputs_of e) \<le> getMaxInputs (name e)"
    by (simp add: example_defs inputs_of_def getMaxInputs_def)
  have il: "2 < length (effectChain exampleEditor)" and l3: "length (effectChain exampleEditor) = 3"
    by (simp_all add: example_defs)
  have g: "Some ''glitch'' \<notin> {Some ''mix'', Some ''transfer-motion'', Some ''chopper'', Some ''source'',
                       Some ''source-local'', Some ''noise''}"
    by simp
  have tr: "truthy (Some ''b'')" "truthy (Some ''m'')" "Some ''b'' \<noteq> Some ''m''"
    by (simp_all add: truthy_def)
  have tgt: "getEntryById (effectChain exampleEditor) (Some ''m'') = Some ?target"
    by (simp add: example_defs getEntryById_def)
  have nm: "name ?target = Some ''mix''" by (simp add: exampleNode_def)
  have two: "getMaxInputs (Some ''mix'') = 2" by (simp add: getMaxInputs_def)
  have pos: "0 < getMaxInputs (name ?target)" by (simp add: nm two)
  note inst = inputs_length_within_max[of 2 exampleEditor exampleEnv False "''glitch''"
      "Some ''b''" "Some ''m''" 0]
  note c2 = inst[THEN conjunct2]
  note c3 = c2[THEN conjunct2]
  note c7 = c3[THEN conjunct2, THEN conjunct2, THEN conjunct2, THEN conjunct2]
  note rest = c7[THEN conjunct2, THEN conjunct2, THEN conjunct2, THEN conjunct2, THEN conjunct2,
      THEN conjunct2, THEN conjunct2]
  have one: "getMaxInputs (Some ''glitch'') = 1" by (rule rest[rule_format, OF g])
  from inst[THEN conjunct1] il
  have at: "name (effectChain (retargetNode exampleEnv False 2 ''glitch'' exampleEditor) ! 2) = Some ''glitch'' \<and>
            length (inputs_of (effectChain (retargetNode exampleEnv False 2 ''glitch'' exampleEditor) ! 2))
              \<le> getMaxInputs (Some ''glitch'')"
    by (rule mp)
  from c2[THEN conjunct1, rule_format, of ?target] tr tgt pos
  have wr: "\<exists>k < length (effectChain exampleEditor).
      findIndexById (effectChain exampleEditor) (Some ''m'') = Some k \<and>
      name (effectChain (connectNodes exampleEnv (Some ''b'') (Some ''m'') 0 exampleEditor) ! k)
        = Some ''mix'' \<and>
      length (inputs_of (effectChain (connectNodes exampleEnv (Some ''b'') (Some ''m'') 0 exampleEditor) ! k))
        = 2"
    by (simp add: nm two)
  from c3[THEN conjunct1] l3
  have len: "length (effectChain (connectNodes exampleEnv (Some ''b'') (Some ''m'') 0 exampleEditor)) = 3"
    by simp
  from c7[THEN conjunct1] inv
  have keep: "(\<forall>e \<in> set (effectChain (connectNodes exampleEnv (Some ''b'') (Some ''m'') 0 exampleEditor)).
               length (inputs_of e) \<le> getMaxInputs (name e)) \<and>
            (\<forall>e \<in> set (effectChain (retargetNode exampleEnv False 2 ''glitch'' exampleEditor)).
               length (inputs_of e) \<le> getMaxInputs (name e))"
    by (rule mp)
  have p1: "list_all (\<lambda>e. length (inputs_of e) \<le> getMaxInputs (name e)) (effectChain exampleEditor)"
    using inv by (simp add: list_all_iff)
  have p2: "list_all (\<lambda>e. length (inputs_of e) \<le> getMaxInputs (name e))
     (effectChain (connectNodes exampleEnv (Some ''b'') (Some ''m'') 0 exampleEditor))"
    using keep by (simp add: list_all_iff)
  have p3: "list_all (\<lambda>e. length (inputs_of e) \<le> getMaxInputs (name e))
     (effectChain (retargetNode exampleEnv False 2 ''glitch'' exampleEditor))"
    using keep by (simp add: list_all_iff)
  from at one have at1: "name (effectChain (retargetNode exampleEnv False 2 ''glitch'' exampleEditor) ! 2) = Some ''glitch''"
    and at2: "length (inputs_of (effectChain (retargetNode exampleEnv False 2 ''glitch'' exampleEditor) ! 2)) \<le> 1"
    by simp_all
  from p1 p2 p3 il at1 at2 tr tgt pos wr len g one show ?thesis
    by (intro conjI)
qed

text \<open>
  The chain with the overfull entry \<open>g\<close> passes \<^verbatim>\<open>normalizeChainData\<close> unchanged.
  Connecting \<open>a\<close> to the mix node, or changing the effect of the mix node, leaves \<open>g\<close>
  with two inputs, one more than its effect accepts.
\<close>

theorem inputs_length_over_max_counterexample:
  "normalizeChainData (now exampleEnv) (Some overfullChain) 0 = (overfullChain, 0) \<and>
   effectChain overfullEditor = overfullChain \<and>
   name (overfullChain ! 1) = Some ''glitch'' \<and> getMaxInputs (Some ''glitch'') = 1 \<and>
   name (effectChain (connectNodes exampleEnv (Some ''a'') (Some ''m'') 0 overfullEditor) ! 1)
     = Some ''glitch'' \<and>
   length (inputs_of (effectChain (connectNodes exampleEnv (Some ''a'') (Some ''m'') 0 overfullEditor) ! 1))
     = 2 \<and>
   inputs_of (effectChain (connectNodes exampleEnv (Some ''a'') (Some ''m'') 0 overfullEditor) ! 2)
     = [Ref ''a'', Null] \<and>
   name (effectChain (retargetNode exampleEnv False 2 ''glitch'' overfullEditor) ! 1) = Some ''glitch'' \<and>
   length (inputs_of (effectChain (retargetNode exampleEnv False 2 ''glitch'' overfullEditor) ! 1)) = 2"
proof -
  have a: "normalizeChainData (now exampleEnv) (Some overfullChain) 0 = (overfullChain, 0)"
    by (simp add: normalizeChainData_def overfullChain_def exampleNode_def normalizeEntry_def
        truthy_def inputs_of_def)
  have b: "effectChain overfullEditor = overfullChain"
    by (simp add: overfullEditor_def)
  have c: "name (overfullChain ! 1) = Some ''glitch''" "getMaxInputs (Some ''glitch'') = 1"
    by (simp_all add: overfullChain_def exampleNode_def getMaxInputs_def)
  have d: "name (effectChain (connectNodes exampleEnv (Some ''a'') (Some ''m'') 0 overfullEditor) ! 1)
             = Some ''glitch''"
    "length (inputs_of (effectChain (connectNodes exampleEnv (Some ''a'') (Some ''m'') 0 overfullEditor) ! 1))
       = 2"
    "inputs_of (effectChain (connectNodes exampleEnv (Some ''a'') (Some ''m'') 0 overfullEditor) ! 2)
       = [Ref ''a'', Null]"
    by (simp_all add: overfullEditor_def overfullChain_def example_defs eval_defs connect_eval_defs
        numeral_2_eq_2)
  have e: "name (effectChain (retargetNode exampleEnv False 2 ''glitch'' overfullEditor) ! 1) = Some ''glitch''"
    "length (inputs_of (effectChain (retargetNode exampleEnv False 2 ''glitch'' overfullEditor) ! 1)) = 2"
    by (simp_all add: overfullEditor_def overfullChain_def example_defs eval_defs retargetNode_def
        retargetEntry_def getMaxInputs_def numeral_2_eq_2)
  from a b c d e show ?thesis by (intro conjI)
qed

section \<open>Adding a node\<close>

text \<open>
  Claim C8. When the chain already has an entry named \<open>source-local\<close>,
  \<^verbatim>\<open>addEffect('source-local')\<close> leaves the chain and the id counter as they were, and
  calls \<^verbatim>\<open>showToast\<close> once, with its message and the error flag set.
\<close>

theorem addEffect_second_source_local:
  assumes "\<exists>e \<in> set (effectChain st). name e = Some ''source-local''"
  shows "effectChain (addEffect ev ''source-local'' positionOverride st) = effectChain st \<and>
         nodeIdCounter (addEffect ev ''source-local'' positionOverride st) = nodeIdCounter st \<and>
         toasts (addEffect ev ''source-local'' positionOverride st)
           = toasts st @ [Toast sourceLocalExistsMessage True]"
  using assms by (simp add: addEffect_def showToast_def)

theorem addEffect_second_source_local_witness:
  "(\<exists>e \<in> set (effectChain (exampleEditor\<lparr>effectChain :=
        effectChain exampleEditor @ [exampleNode ''l'' ''source-local'' [] 3]\<rparr>)).
      name e = Some ''source-local'') \<and>
   effectChain (addEffect exampleEnv ''source-local'' None
      (exampleEditor\<lparr>effectChain := effectChain exampleEditor @ [exampleNode ''l'' ''source-local'' [] 3]\<rparr>))
     = effectChain exampleEditor @ [exampleNode ''l'' ''source-local'' [] 3] \<and>
   nodeIdCounter (addEffect exampleEnv ''source-local'' None
      (exampleEditor\<lparr>effectChain := effectChain exampleEditor @ [exampleNode ''l'' ''source-local'' [] 3]\<rparr>))
     = 3 \<and>
   toasts (addEffect exampleEnv ''source-local'' None
      (exampleEditor\<lparr>effectChain := effectChain exampleEditor @ [exampleNode ''l'' ''source-local'' [] 3]\<rparr>))
     = [Toast sourceLocalExistsMessage True]"
proof -
  let ?st = "exampleEditor\<lparr>effectChain := effectChain exampleEditor @ [exampleNode ''l'' ''source-local'' [] 3]\<rparr>"
  have h: "\<exists>e \<in> set (effectChain ?st). name e = Some ''source-local''"
    by (simp add: exampleNode_def)
  have c: "nodeIdCounter ?st = 3" and t: "toasts ?st = []"
    by (simp_all add: exampleEditor_def)
  from addEffect_second_source_local[OF h, of exampleEnv None] h c t show ?thesis
    by simp
qed

section \<open>Normalising a loaded chain\<close>


















section \<open>Zooming with the wheel\<close>



lemma clampScale_id: "clampScale v = v \<longleftrightarrow> 0.45 \<le> v \<and> v \<le> 1.9"
  by (auto simp: clampScale_def min_def max_def)







end
